theory Spec2Isabelle
  imports Complex_Main
begin

section \<open>Conventions\<close>

text \<open>
  The two notebooks (\<^verbatim>\<open>Practice/transformer_in_pytorch.ipynb\<close> and
  \<^verbatim>\<open>Practice/dot_product_qkv.ipynb\<close>) are embedded function by function.
  A tensor of floats holds reals: the arithmetic of the notebooks is read over the
  real numbers, and rounding is outside this development. Two facts of the
  floating-point formats are kept where the two softmax functions turn on them: the
  exponential underflows to zero, and zero divided by zero is not a number. A tensor
  of integers holds \<open>int\<close>, a boolean tensor \<open>bool\<close>. Every exception the code can
  raise is a value \<open>Inl e\<close> of the result.
\<close>

datatype error =
    AssertionError
  | ValueError
  | ZeroDivisionError
  | RuntimeError
  | IndexError

type_synonym vec = "real list"
type_synonym matrix = "real list list"

section \<open>Library layers constructed by the blocks\<close>

text \<open>
  \<^verbatim>\<open>nn.Dropout(p)\<close> rejects a probability outside \<open>[0, 1]\<close> with a
  \<^verbatim>\<open>ValueError\<close>; a fresh module is in training mode.
  \<^verbatim>\<open>nn.Linear(i, o)\<close> allocates an \<open>o \<times> i\<close> weight, which fails
  with a \<^verbatim>\<open>RuntimeError\<close> on a negative dimension. The randomly initialised
  weights themselves are not part of the model: no property below reads them.
\<close>

record Dropout =
  dropout_p :: real
  training :: bool

definition Dropout_init :: "real \<Rightarrow> error + Dropout" where
  "Dropout_init prob =
     (if prob < 0 \<or> 1 < prob then Inl ValueError
      else Inr \<lparr>dropout_p = prob, training = True\<rparr>)"

record Linear =
  in_features :: int
  out_features :: int

definition Linear_init :: "int \<Rightarrow> int \<Rightarrow> error + Linear" where
  "Linear_init i o' =
     (if i < 0 \<or> o' < 0 then Inl RuntimeError
      else Inr \<lparr>in_features = i, out_features = o'\<rparr>)"

section \<open>MultiHeadAttentionBlock.__init__\<close>

text \<open>
  \<^verbatim>\<open>
  self.d_model = d_model
  self.h = h
  assert d_model % h == 0
  self.d_k = d_model // h
  self.w_q = nn.Linear(d_model, d_model)   # and w_k, w_v, w_o
  self.dropout = nn.Dropout(dropout)
  \<close>
  Python's \<^verbatim>\<open>%\<close> and \<^verbatim>\<open>//\<close> on integers are HOL's \<open>mod\<close> and \<open>div\<close>
  on \<open>int\<close> (floor division), except that a zero divisor raises
  \<^verbatim>\<open>ZeroDivisionError\<close>, here while the asserted condition is evaluated.
\<close>

record MultiHeadAttentionBlock =
  mha_d_model :: int
  mha_h :: int
  mha_d_k :: int
  w_q :: Linear
  w_k :: Linear
  w_v :: Linear
  w_o :: Linear
  mha_dropout :: Dropout

definition MultiHeadAttentionBlock_init ::
  "int \<Rightarrow> int \<Rightarrow> real \<Rightarrow> error + MultiHeadAttentionBlock" where
  "MultiHeadAttentionBlock_init d_model h dropout =
     (if h = 0 then Inl ZeroDivisionError
      else if d_model mod h \<noteq> 0 then Inl AssertionError
      else
        let d_k = d_model div h in
        case Linear_init d_model d_model of
          Inl e \<Rightarrow> Inl e
        | Inr lin \<Rightarrow>
            (case Dropout_init dropout of
               Inl e \<Rightarrow> Inl e
             | Inr dr \<Rightarrow>
                 Inr \<lparr>mha_d_model = d_model, mha_h = h, mha_d_k = d_k,
                      w_q = lin, w_k = lin, w_v = lin, w_o = lin,
                      mha_dropout = dr\<rparr>))"

section \<open>casual_mask\<close>

text \<open>
  \<^verbatim>\<open>
  def casual_mask(size):
      mask = torch.triu(torch.ones(1, size, size), diagonal=1).type(torch.int)
      return mask == 0
  \<close>
  \<open>ones b r c\<close> is the \<open>b \<times> r \<times> c\<close> tensor of ones, \<open>triu d\<close> keeps the entries
  of a matrix with \<open>j - i \<ge> d\<close> and zeroes the others, \<open>to_int\<close> is the conversion
  of a float to an integer (truncation towards zero).
\<close>

definition ones :: "nat \<Rightarrow> nat \<Rightarrow> nat \<Rightarrow> real list list list" where
  "ones b r c = replicate b (replicate r (replicate c 1))"

definition triu :: "int \<Rightarrow> matrix \<Rightarrow> matrix" where
  "triu diagonal m =
     map (\<lambda>(i, row). map (\<lambda>(j, x). if diagonal \<le> int j - int i then x else 0)
                          (enumerate 0 row))
         (enumerate 0 m)"

definition to_int :: "real \<Rightarrow> int" where
  "to_int x = (if 0 \<le> x then \<lfloor>x\<rfloor> else \<lceil>x\<rceil>)"

definition casual_mask :: "nat \<Rightarrow> bool list list list" where
  "casual_mask sz =
     (let mask = map (map (map to_int)) (map (triu 1) (ones 1 sz sz))
      in map (map (map (\<lambda>x. x = 0))) mask)"

section \<open>BilingualDataset.__getitem__\<close>

text \<open>
  The raw dataset is a list of (source text, target text) pairs and each tokenizer a
  function from a text to its ids (\<^verbatim>\<open>tokenizer.encode(text).ids\<close>); the three
  special ids are those the constructor read from the target tokenizer. The padding
  mask keeps the two leading singleton axes of
  \<^verbatim>\<open>.unsqueeze(0).unsqueeze(0)\<close>, and \<^verbatim>\<open>.int()\<close> makes its entries 0 and 1.
\<close>

record BilingualDataset =
  ds :: "(string \<times> string) list"
  tokenizer_src :: "string \<Rightarrow> int list"
  tokenizer_tgt :: "string \<Rightarrow> int list"
  ds_seq_len :: int
  sos_token :: int
  eos_token :: int
  pad_token :: int

record Item =
  item_encoder_input :: "int list"
  item_decoder_input :: "int list"
  item_encoder_mask :: "int list list list"
  item_decoder_mask :: "int list list list"
  item_label :: "int list"
  item_src_text :: string
  item_tgt_text :: string

definition padding_mask :: "int \<Rightarrow> int list \<Rightarrow> int list" where
  "padding_mask pad xs = map (\<lambda>t. if t \<noteq> pad then 1 else 0) xs"

text \<open>
  \<^verbatim>\<open>(decoder_input != pad).unsqueeze(0).unsqueeze(0).int() & casual_mask(n)\<close>:
  the \<open>1 \<times> 1 \<times> n\<close> padding mask is broadcast over the rows of the \<open>1 \<times> n \<times> n\<close>
  causal mask and combined entry by entry.
\<close>

definition and_masks :: "int list \<Rightarrow> bool list list list \<Rightarrow> int list list list" where
  "and_masks pm cm =
     map (map (\<lambda>row. map (\<lambda>(a, b). if a \<noteq> 0 \<and> b then 1 else 0) (zip pm row))) cm"

definition getitem :: "BilingualDataset \<Rightarrow> nat \<Rightarrow> error + Item" where
  "getitem self index =
     (if length (ds self) \<le> index then Inl IndexError
      else
        let src_target_pair = ds self ! index;
            src_text = fst src_target_pair;
            tgt_text = snd src_target_pair;
            enc_input_tokens = tokenizer_src self src_text;
            dec_input_tokens = tokenizer_tgt self tgt_text;
            enc_num_padding_tokens = ds_seq_len self - int (length enc_input_tokens) - 2;
            dec_num_padding_tokens = ds_seq_len self - int (length dec_input_tokens) - 1
        in
        if enc_num_padding_tokens < 0 \<or> dec_num_padding_tokens < 0 then Inl ValueError
        else
          let encoder_input = [sos_token self] @ enc_input_tokens @ [eos_token self]
                         @ replicate (nat enc_num_padding_tokens) (pad_token self);
              decoder_input = [sos_token self] @ dec_input_tokens
                         @ replicate (nat dec_num_padding_tokens) (pad_token self);
              label = dec_input_tokens @ [eos_token self]
                         @ replicate (nat dec_num_padding_tokens) (pad_token self)
          in
          if int (length encoder_input) \<noteq> ds_seq_len self then Inl AssertionError
          else if int (length decoder_input) \<noteq> ds_seq_len self then Inl AssertionError
          else if int (length label) \<noteq> ds_seq_len self then Inl AssertionError
          else
            Inr \<lparr>item_encoder_input = encoder_input,
                 item_decoder_input = decoder_input,
                 item_encoder_mask = [[padding_mask (pad_token self) encoder_input]],
                 item_decoder_mask = and_masks (padding_mask (pad_token self) decoder_input)
                                          (casual_mask (length decoder_input)),
                 item_label = label,
                 item_src_text = src_text,
                 item_tgt_text = tgt_text\<rparr>)"

section \<open>Floats and shaped tensors\<close>

text \<open>
  A float is a real, or \<open>None\<close> for NaN. \<open>fexp u\<close> is the exponential of a format
  whose exponential underflows below \<open>u\<close>: it returns exactly zero there (\<open>u\<close> is
  about \<open>-745.13\<close> for 64-bit and \<open>-103.97\<close> for 32-bit floats) and is exact
  elsewhere. \<open>fdiv\<close> is the division: a zero divisor gives NaN, which is what the
  formats give for \<open>0 / 0\<close>; wherever a function below can divide by zero, the
  numerator is zero as well.

  A two-dimensional tensor (one batch and head slice of a torch tensor) carries its
  shape, so that a tensor without rows still has a number of columns: \<open>t_at t i j\<close>
  is the entry at row \<open>i\<close> and column \<open>j\<close>, read only for \<open>i < t_rows t\<close> and
  \<open>j < t_cols t\<close>.
\<close>

type_synonym fval = "real option"

definition fexp :: "real \<Rightarrow> real \<Rightarrow> real" where
  "fexp u x = (if x < u then 0 else exp x)"

definition fdiv :: "real \<Rightarrow> real \<Rightarrow> fval" where
  "fdiv a b = (if b = 0 then None else Some (a / b))"

record 'a tensor =
  t_rows :: nat
  t_cols :: nat
  t_at :: "nat \<Rightarrow> nat \<Rightarrow> 'a"

section \<open>MultiHeadAttentionBlock.attention\<close>

text \<open>
  \<^verbatim>\<open>
  def attention(query, key, value, mask, dropout):
      d_k = query.shape[-1]
      attention_scores = (query @ key.transpose(-2, -1)) / math.sqrt(d_k)
      if mask is not None:
          attention_scores.masked_fill_(mask == 0, -1e9)
      attention_scores = attention_scores.softmax(dim=-1)
      if dropout is not None:
          attention_scores = dropout(attention_scores)
      return (attention_scores @ value), attention_scores
  \<close>
  The model is one (batch, head) slice: \<open>query\<close> has \<open>seq_q\<close> rows and \<open>d_k\<close>
  columns, \<open>key\<close> has \<open>seq_k\<close> rows; the leading axes are mapped over by torch.
  Each step raises \<^verbatim>\<open>RuntimeError\<close> when its operands do not fit: the two matrix
  products when the inner sizes differ, the in-place fill when the mask cannot be
  broadcast to the shape of the scores (each of its two sizes must be that of the
  scores or 1; the padding mask has one row, read for every query).
  With \<open>d_k = 0\<close> every score is \<open>0 / 0\<close>, that is NaN.
  The softmax of torch subtracts the maximum of the row before it exponentiates; a
  NaN in a row makes the maximum, the sum and so the whole row NaN.
  The Bernoulli draw of a dropout layer in training mode is the explicit argument
  \<open>keep\<close>, one outcome for each position: a kept entry is scaled by \<open>1 / (1 - p)\<close>,
  a dropped one is multiplied by zero (all of them when \<open>p = 1\<close>), and NaN stays
  NaN; in evaluation mode the layer is the identity.
\<close>

definition matmul_transposed :: "real tensor \<Rightarrow> real tensor \<Rightarrow> error + real tensor" where
  \<comment> \<open>\<^verbatim>\<open>a @ b.transpose(-2, -1)\<close>\<close>
  "matmul_transposed a b =
     (if t_cols a \<noteq> t_cols b then Inl RuntimeError
      else Inr \<lparr>t_rows = t_rows a, t_cols = t_rows b,
               t_at = (\<lambda>i j. \<Sum>c<t_cols a. t_at a i c * t_at b j c)\<rparr>)"

definition divide_scalar :: "real tensor \<Rightarrow> real \<Rightarrow> fval tensor" where
  "divide_scalar x s =
     \<lparr>t_rows = t_rows x, t_cols = t_cols x, t_at = (\<lambda>i j. fdiv (t_at x i j) s)\<rparr>"

definition mask_at :: "int tensor \<Rightarrow> nat \<Rightarrow> nat \<Rightarrow> int" where
  \<comment> \<open>the entry of a broadcast mask that position \<open>(i, j)\<close> reads\<close>
  "mask_at msk i j =
     t_at msk (if t_rows msk = 1 then 0 else i) (if t_cols msk = 1 then 0 else j)"

definition masked_fill :: "fval tensor \<Rightarrow> int tensor \<Rightarrow> real \<Rightarrow> error + fval tensor" where
  \<comment> \<open>\<^verbatim>\<open>x.masked_fill_(mask == 0, v)\<close>\<close>
  "masked_fill x msk v =
     (if (t_rows msk = t_rows x \<or> t_rows msk = 1) \<and> (t_cols msk = t_cols x \<or> t_cols msk = 1)
      then Inr \<lparr>t_rows = t_rows x, t_cols = t_cols x,
                t_at = (\<lambda>i j. if mask_at msk i j = 0 then Some v else t_at x i j)\<rparr>
      else Inl RuntimeError)"

definition tensor_softmax :: "real \<Rightarrow> nat \<Rightarrow> (nat \<Rightarrow> fval) \<Rightarrow> nat \<Rightarrow> fval" where
  \<comment> \<open>entry \<open>j\<close> of \<^verbatim>\<open>.softmax(dim=-1)\<close> of a row \<open>x\<close> of \<open>n\<close> entries\<close>
  "tensor_softmax u n x j =
     (if \<exists>i<n. x i = None then None
      else
        let m = Max ((\<lambda>i. the (x i)) ` {..<n});
            e = (\<lambda>i. fexp u (the (x i) - m))
        in fdiv (e j) (\<Sum>i<n. e i))"

definition softmax_last_dim :: "real \<Rightarrow> fval tensor \<Rightarrow> fval tensor" where
  "softmax_last_dim u x =
     \<lparr>t_rows = t_rows x, t_cols = t_cols x,
      t_at = (\<lambda>i. tensor_softmax u (t_cols x) (t_at x i))\<rparr>"

definition dropout_forward :: "Dropout \<Rightarrow> (nat \<Rightarrow> nat \<Rightarrow> bool) \<Rightarrow> fval tensor \<Rightarrow> fval tensor" where
  "dropout_forward d keep x =
     (if training d
      then \<lparr>t_rows = t_rows x, t_cols = t_cols x,
            t_at = (\<lambda>i j. map_option
                      (\<lambda>w. if dropout_p d = 1 then 0
                           else if keep i j then w / (1 - dropout_p d) else 0)
                      (t_at x i j))\<rparr>
      else x)"

definition matmul :: "fval tensor \<Rightarrow> real tensor \<Rightarrow> error + fval tensor" where
  \<comment> \<open>\<^verbatim>\<open>a @ b\<close>; a NaN in a row of \<open>a\<close> makes every sum over that row NaN\<close>
  "matmul a b =
     (if t_cols a \<noteq> t_rows b then Inl RuntimeError
      else Inr \<lparr>t_rows = t_rows a, t_cols = t_cols b,
               t_at = (\<lambda>i c. if \<exists>j<t_cols a. t_at a i j = None then None
                              else Some (\<Sum>j<t_cols a. the (t_at a i j) * t_at b j c))\<rparr>)"

definition attention ::
  "real \<Rightarrow> real tensor \<Rightarrow> real tensor \<Rightarrow> real tensor \<Rightarrow> int tensor option
     \<Rightarrow> (Dropout \<times> (nat \<Rightarrow> nat \<Rightarrow> bool)) option \<Rightarrow> error + (fval tensor \<times> fval tensor)" where
  "attention u query key value msk dropout =
     (let d_k = t_cols query in
      case matmul_transposed query key of
        Inl e \<Rightarrow> Inl e
      | Inr qk \<Rightarrow>
          let scores = divide_scalar qk (sqrt (real d_k)) in
          case (case msk of None \<Rightarrow> Inr scores
                | Some m \<Rightarrow> masked_fill scores m (- 1000000000)) of
            Inl e \<Rightarrow> Inl e
          | Inr filled \<Rightarrow>
              let weights = softmax_last_dim u filled;
                  dropped = (case dropout of None \<Rightarrow> weights
                             | Some (d, keep) \<Rightarrow> dropout_forward d keep weights)
              in case matmul dropped value of
                   Inl e \<Rightarrow> Inl e
                 | Inr out \<Rightarrow> Inr (out, dropped))"

section \<open>PositionalEncoding.__init__\<close>

text \<open>
  \<^verbatim>\<open>
  self.dropout = nn.Dropout(dropout)
  pe = torch.zeros(seq_len, d_model)
  position = torch.arange(0, seq_len, dtype=torch.float).unsqueeze(1)
  div_term = torch.exp(torch.arange(0, d_model, 2).float() * (-math.log(10000.0) / d_model))
  pe[:, 0::2] = torch.sin(position * div_term)
  pe[:, 1::2] = torch.cos(position * div_term)
  pe = pe.unsqueeze(0)
  \<close>
  \<^verbatim>\<open>torch.zeros\<close> fails on a negative size, the Python division by
  \<^verbatim>\<open>d_model\<close> raises \<^verbatim>\<open>ZeroDivisionError\<close> when it is zero, and an assignment
  to the slice \<^verbatim>\<open>pe[:, start::2]\<close> needs a right-hand side with as many columns as
  the slice, or with one column (which is broadcast).
\<close>

record PositionalEncoding =
  pe_d_model :: int
  pe_seq_len :: int
  pe_dropout :: Dropout
  pe :: "real list list list"

definition arange2 :: "int \<Rightarrow> real list" where
  \<comment> \<open>\<^verbatim>\<open>torch.arange(0, n, 2).float()\<close>\<close>
  "arange2 n = map (\<lambda>i. real (2 * i)) [0..<nat ((n + 1) div 2)]"

definition div_term :: "int \<Rightarrow> real list" where
  "div_term d_model = map (\<lambda>x. exp (x * (- ln 10000 / real_of_int d_model))) (arange2 d_model)"

definition position :: "int \<Rightarrow> real list" where
  "position seq_len = map real [0..<nat seq_len]"

definition slice_len :: "nat \<Rightarrow> nat \<Rightarrow> nat" where
  \<comment> \<open>the number of indices \<open>start, start + 2, ...\<close> below \<open>d\<close>\<close>
  "slice_len start d = (d + 1 - start) div 2"

definition set_strided :: "nat \<Rightarrow> vec \<Rightarrow> vec \<Rightarrow> vec" where
  "set_strided start src row =
     map (\<lambda>(j, x). if start \<le> j \<and> even (j - start)
                    then (if length src = 1 then src ! 0 else src ! ((j - start) div 2))
                    else x)
         (enumerate 0 row)"

definition assign_strided :: "nat \<Rightarrow> nat \<Rightarrow> nat \<Rightarrow> matrix \<Rightarrow> matrix \<Rightarrow> error + matrix" where
  \<comment> \<open>\<^verbatim>\<open>dst[:, start::2] = src\<close> for \<open>dst\<close> with \<open>d\<close> columns and \<open>src\<close> with
      \<open>src_cols\<close> columns\<close>
  "assign_strided start d src_cols src dst =
     (if src_cols = slice_len start d \<or> src_cols = 1
      then Inr (map (\<lambda>(s, r). set_strided start s r) (zip src dst))
      else Inl RuntimeError)"

definition PositionalEncoding_init :: "int \<Rightarrow> int \<Rightarrow> real \<Rightarrow> error + PositionalEncoding" where
  "PositionalEncoding_init d_model seq_len dropout =
     (case Dropout_init dropout of
        Inl e \<Rightarrow> Inl e
      | Inr dr \<Rightarrow>
          if seq_len < 0 \<or> d_model < 0 then Inl RuntimeError
          else if d_model = 0 then Inl ZeroDivisionError
          else
            let pe0 = replicate (nat seq_len) (replicate (nat d_model) 0);
                angles = map (\<lambda>pos. map (\<lambda>t. pos * t) (div_term d_model)) (position seq_len);
                cols = length (div_term d_model)
            in
            case assign_strided 0 (nat d_model) cols (map (map sin) angles) pe0 of
              Inl e \<Rightarrow> Inl e
            | Inr pe1 \<Rightarrow>
                (case assign_strided 1 (nat d_model) cols (map (map cos) angles) pe1 of
                   Inl e \<Rightarrow> Inl e
                 | Inr pe2 \<Rightarrow>
                     Inr \<lparr>pe_d_model = d_model, pe_seq_len = seq_len,
                          pe_dropout = dr, pe = [pe2]\<rparr>))"

section \<open>greedy_decode\<close>

text \<open>
  \<^verbatim>\<open>
  encoder_output = model.encode(source, source_mask)
  decoder_input = torch.empty(1, 1).fill_(sos_idx).type_as(source).to(device)
  while True:
      if decoder_input.size(1) == max_len:
          break
      decoder_mask = casual_mask(decoder_input.size(1)).type_as(source_mask).to(device)
      out = model.decode(encoder_output, source_mask, decoder_input, decoder_mask)
      prob = model.project(out[:, -1])
      _, next_word = torch.max(prob, dim=1)
      decoder_input = torch.cat([decoder_input, ...fill_(next_word.item())...], dim=1)
      if next_word == eos_idx:
          break
  return decoder_input.squeeze(0)
  \<close>
  The model is a parameter: its three methods may raise, and they thread a hidden
  state \<open>'st\<close> (the random generator behind the dropout layers of a model left in
  training mode), so a theorem for every \<open>Transformer\<close> covers the stochastic ones.
  \<open>sos_idx\<close> and \<open>eos_idx\<close>, which the code reads from the target tokenizer, are
  parameters too. The batch axis has size one and is dropped: the decoder input is
  the list of its token ids, \<open>out\<close> the list of the decoder's output positions and
  \<open>prob\<close> the list of log-probabilities over the vocabulary. The loop keeps a log of
  the model's methods it has called.
\<close>

record ('src, 'msk, 'enc, 'out, 'st) Transformer =
  encode :: "'src \<Rightarrow> 'msk \<Rightarrow> 'st \<Rightarrow> error + ('enc \<times> 'st)"
  decode :: "'enc \<Rightarrow> 'msk \<Rightarrow> int list \<Rightarrow> int list list list \<Rightarrow> 'st
               \<Rightarrow> error + ('out list \<times> 'st)"
  project :: "'out \<Rightarrow> 'st \<Rightarrow> error + (real list \<times> 'st)"

datatype call = Encode | Decode "int list" "int list list list" | Project

definition type_as_int :: "bool list list list \<Rightarrow> int list list list" where
  "type_as_int = map (map (map (\<lambda>b. if b then 1 else 0)))"

definition torch_max :: "real list \<Rightarrow> error + int" where
  \<comment> \<open>the index \<^verbatim>\<open>torch.max(prob, dim=1)\<close> returns: that of the first maximal
      entry; an empty reduction axis is an error\<close>
  "torch_max prob =
     (case prob of
        [] \<Rightarrow> Inl IndexError
      | v # vs \<Rightarrow> Inr (int (length (takeWhile (\<lambda>x. x \<noteq> fold max vs v) prob))))"

partial_function (option) greedy_loop ::
  "('src, 'msk, 'enc, 'out, 'st) Transformer \<Rightarrow> 'enc \<Rightarrow> 'msk \<Rightarrow> int \<Rightarrow> int
     \<Rightarrow> int list \<Rightarrow> 'st \<Rightarrow> call list \<Rightarrow> (error + int list \<times> 'st \<times> call list) option" where
  "greedy_loop model encoder_output source_mask eos_idx max_len decoder_input st calls =
     (if int (length decoder_input) = max_len then Some (Inr (decoder_input, st, calls))
      else
        let decoder_mask = type_as_int (casual_mask (length decoder_input)) in
        case decode model encoder_output source_mask decoder_input decoder_mask st of
          Inl e \<Rightarrow> Some (Inl e)
        | Inr (out, st1) \<Rightarrow>
            (case out of
               [] \<Rightarrow> Some (Inl IndexError)
             | _ # _ \<Rightarrow>
                 (case project model (last out) st1 of
                    Inl e \<Rightarrow> Some (Inl e)
                  | Inr (prob, st2) \<Rightarrow>
                      (case torch_max prob of
                         Inl e \<Rightarrow> Some (Inl e)
                       | Inr next_word \<Rightarrow>
                           if next_word = eos_idx
                           then Some (Inr (decoder_input @ [next_word], st2,
                                           calls @ [Decode decoder_input decoder_mask, Project]))
                           else greedy_loop model encoder_output source_mask eos_idx max_len
                                  (decoder_input @ [next_word]) st2
                                  (calls @ [Decode decoder_input decoder_mask, Project])))))"

definition greedy_decode ::
  "('src, 'msk, 'enc, 'out, 'st) Transformer \<Rightarrow> 'src \<Rightarrow> 'msk \<Rightarrow> int \<Rightarrow> int \<Rightarrow> int \<Rightarrow> 'st
     \<Rightarrow> (error + int list \<times> 'st \<times> call list) option" where
  "greedy_decode model source source_mask sos_idx eos_idx max_len st =
     (case encode model source source_mask st of
        Inl e \<Rightarrow> Some (Inl e)
      | Inr (encoder_output, st1) \<Rightarrow>
          greedy_loop model encoder_output source_mask eos_idx max_len [sos_idx] st1 [Encode])"

text \<open>
  What a run of the loop that started with the decoder input \<open>dec\<close> and the log
  \<open>calls\<close>, and returned the sequence \<open>seq\<close> with the log \<open>calls'\<close>, has done:
  \<open>seq\<close> extends \<open>dec\<close>; the loop left because the length reached \<open>max_len\<close> or
  because the token it had just appended is the end token; iteration \<open>n\<close> called
  \<^verbatim>\<open>decode\<close> on the first \<open>n\<close> tokens of \<open>seq\<close> with the causal mask of size \<open>n\<close>,
  then \<^verbatim>\<open>project\<close>; token \<open>n\<close> of \<open>seq\<close> is the index \<^verbatim>\<open>torch.max\<close> picks
  from the projection of the last position of such a decoding; and no token before
  the last appended one is the end token.
\<close>

definition greedy_post ::
  "('src, 'msk, 'enc, 'out, 'st) Transformer \<Rightarrow> 'enc \<Rightarrow> 'msk \<Rightarrow> int \<Rightarrow> int
     \<Rightarrow> int list \<Rightarrow> call list \<Rightarrow> int list \<Rightarrow> call list \<Rightarrow> bool" where
  "greedy_post M enc msk eos max_len dec calls seq calls' \<longleftrightarrow>
        take (length dec) seq = dec \<and> length dec \<le> length seq
      \<and> (int (length seq) = max_len \<or> (length dec < length seq \<and> last seq = eos))
      \<and> calls' = calls @ concat (map (\<lambda>n. [Decode (take n seq) (type_as_int (casual_mask n)),
                                               Project]) [length dec..<length seq])
      \<and> (\<forall>n. length dec \<le> n \<and> n < length seq \<longrightarrow>
            (\<exists>sa out sb prob sc.
                decode M enc msk (take n seq) (type_as_int (casual_mask n)) sa = Inr (out, sb)
              \<and> out \<noteq> [] \<and> project M (last out) sb = Inr (prob, sc)
              \<and> torch_max prob = Inr (seq ! n)))
      \<and> (\<forall>n. length dec \<le> n \<and> Suc n < length seq \<longrightarrow> seq ! n \<noteq> eos)"

section \<open>The softmax helper of the attention exercise\<close>

text \<open>
  \<^verbatim>\<open>
  def softmax(x):
      exp_x = np.exp(x - np.max(x))
      return np.exp(x - np.max(x)) / exp_x.sum(axis=-1, keepdims=True)
  \<close>
  The argument is a two-dimensional array, the list of its rows (a one-dimensional
  array is a single row). \<^verbatim>\<open>np.max(x)\<close>, with no axis, is the maximum over all
  entries and raises \<^verbatim>\<open>ValueError\<close> on an array without entries. The exponential
  underflows below \<open>u\<close>, and a row whose exponentials are all zero is divided by
  zero: numpy warns and returns NaN.
\<close>

definition np_max :: "matrix \<Rightarrow> error + real" where
  "np_max x = (case concat x of [] \<Rightarrow> Inl ValueError | v # vs \<Rightarrow> Inr (fold max vs v))"

definition softmax :: "real \<Rightarrow> matrix \<Rightarrow> error + fval list list" where
  "softmax u x =
     (case np_max x of
        Inl e \<Rightarrow> Inl e
      | Inr m \<Rightarrow>
          let exp_x = map (map (\<lambda>v. fexp u (v - m))) x
          in Inr (map (\<lambda>(num, den). map (\<lambda>v. fdiv v (sum_list den)) num)
                      (zip (map (map (\<lambda>v. fexp u (v - m))) x) exp_x)))"

text \<open>
  The two softmax functions the specification compares the helper with: the one that
  does not recompute the numerator, and the one that subtracts the maximum of each row.
\<close>

definition softmax_nonredundant :: "real \<Rightarrow> matrix \<Rightarrow> error + fval list list" where
  "softmax_nonredundant u x =
     (case np_max x of
        Inl e \<Rightarrow> Inl e
      | Inr m \<Rightarrow>
          let exp_x = map (map (\<lambda>v. fexp u (v - m))) x
          in Inr (map (\<lambda>row. map (\<lambda>v. fdiv v (sum_list row)) row) exp_x))"

definition softmax_row_max :: "real \<Rightarrow> vec \<Rightarrow> fval list" where
  "softmax_row_max u row =
     (let exp_row = map (\<lambda>v. fexp u (v - Max (set row))) row
      in map (\<lambda>v. fdiv v (sum_list exp_row)) exp_row)"

section \<open>Inputs of the examples\<close>

text \<open>The tensor \<^verbatim>\<open>torch.tensor(xs)\<close> of a list of rows of one length.\<close>

definition of_rows :: "'a list list \<Rightarrow> 'a tensor" where
  "of_rows xs = \<lparr>t_rows = length xs,
                 t_cols = (case xs of [] \<Rightarrow> 0 | r # _ \<Rightarrow> length r),
                 t_at = (\<lambda>i j. xs ! i ! j)\<rparr>"

text \<open>The rows of a tensor, read back as lists, and the rows of both results of \<open>attention\<close>.\<close>

definition to_rows :: "'a tensor \<Rightarrow> 'a list list" where
  "to_rows t = map (\<lambda>i. map (t_at t i) [0..<t_cols t]) [0..<t_rows t]"

definition result_rows ::
  "error + (fval tensor \<times> fval tensor) \<Rightarrow> error + (fval list list \<times> fval list list)" where
  "result_rows r = (case r of Inl e \<Rightarrow> Inl e | Inr (out, w) \<Rightarrow> Inr (to_rows out, to_rows w))"

text \<open>The draw of a dropout layer that keeps every position.\<close>

definition keep_all :: "nat \<Rightarrow> nat \<Rightarrow> bool" where
  "keep_all i j = True"

definition example_ds :: BilingualDataset where
  "example_ds = \<lparr>ds = [(''src'', ''tgt'')],
                 tokenizer_src = (\<lambda>_. [5, 6, 7, 8, 9]),
                 tokenizer_tgt = (\<lambda>_. [4, 5]),
                 ds_seq_len = 10, sos_token = 2, eos_token = 3, pad_token = 1\<rparr>"

definition long_ds :: BilingualDataset where
  "long_ds = \<lparr>ds = [(''src'', ''tgt'')],
              tokenizer_src = (\<lambda>_. [5, 6, 7, 8, 9, 10, 11, 12, 13]),
              tokenizer_tgt = (\<lambda>_. [4, 5]),
              ds_seq_len = 10, sos_token = 2, eos_token = 3, pad_token = 1\<rparr>"


definition never_eos_model :: "(unit, unit, unit, unit, unit) Transformer" where
  "never_eos_model =
     \<lparr>encode = (\<lambda>_ _ s. Inr ((), s)),
      decode = (\<lambda>_ _ dec _ s. Inr (map (\<lambda>_. ()) dec, s)),
      project = (\<lambda>_ s. Inr ([1, 0, 0, 0], s))\<rparr>"

section \<open>Properties\<close>

subsection \<open>The causal mask\<close>

lemma triu_nth:
  assumes "i < length m" and "j < length (m ! i)"
  shows "triu d m ! i ! j = (if d \<le> int j - int i then m ! i ! j else 0)"
  using assms by (simp add: triu_def nth_enumerate_eq)

lemma triu_length: "length (triu d m) = length m"
  by (simp add: triu_def)

lemma triu_row_length: "i < length m \<Longrightarrow> length (triu d m ! i) = length (m ! i)"
  by (simp add: triu_def nth_enumerate_eq)

lemma casual_mask_single:
  "casual_mask n = [map (map (\<lambda>x. to_int x = 0)) (triu 1 (replicate n (replicate n 1)))]"
  by (simp add: casual_mask_def ones_def Let_def comp_def)

lemma casual_mask_entry:
  assumes "i < n" and "j < n"
  shows "hd (casual_mask n) ! i ! j = (j \<le> i)"
proof -
  have len: "i < length (triu 1 (replicate n (replicate n (1::real))))"
    using assms by (simp add: triu_length)
  have rowlen: "j < length (triu 1 (replicate n (replicate n (1::real))) ! i)"
    using assms by (simp add: triu_row_length)
  have "triu 1 (replicate n (replicate n (1::real))) ! i ! j
          = (if 1 \<le> int j - int i then 1 else 0)"
    using assms by (simp add: triu_nth)
  then show ?thesis
    using len rowlen by (auto simp: casual_mask_single to_int_def)
qed

text \<open>
  C2. For every target length \<open>L\<close> the causal mask is one \<open>L \<times> L\<close> boolean matrix
  (under a leading axis of size one) whose entry \<open>(i, j)\<close> is True, position \<open>i\<close> may
  attend to position \<open>j\<close>, exactly when \<open>j \<le> i\<close>: the excluded entries are the
  strictly upper triangle.
\<close>

theorem casual_mask_lower_triangular:
  "\<exists>M. casual_mask L = [M] \<and> length M = L \<and>
       (\<forall>i<L. length (M ! i) = L \<and> (\<forall>j<L. M ! i ! j = (j \<le> i)))"
proof -
  let ?M = "map (map (\<lambda>x. to_int x = 0)) (triu 1 (replicate L (replicate L (1::real))))"
  have single: "casual_mask L = [?M]"
    by (rule casual_mask_single)
  have "length ?M = L"
    by (simp add: triu_length)
  moreover have "\<forall>i<L. length (?M ! i) = L \<and> (\<forall>j<L. ?M ! i ! j = (j \<le> i))"
  proof (intro allI impI conjI)
    fix i assume "i < L"
    then show "length (?M ! i) = L"
      by (simp add: triu_length triu_row_length)
  next
    fix i j assume "i < L" and "j < L"
    then have "hd (casual_mask L) ! i ! j = (j \<le> i)"
      by (rule casual_mask_entry)
    then show "?M ! i ! j = (j \<le> i)"
      by (simp add: single)
  qed
  ultimately show ?thesis
    using single by blast
qed

theorem casual_mask_lower_triangular_witness:
  "length (hd (casual_mask 3)) = 3 \<and> hd (casual_mask 3) ! 2 ! 1 \<and> \<not> hd (casual_mask 3) ! 1 ! 2
     \<and> hd (casual_mask 3) ! 1 ! 1"
proof -
  obtain M where M: "casual_mask 3 = [M]" "length M = 3"
    and rows: "\<forall>i<3. length (M ! i) = 3 \<and> (\<forall>j<3. M ! i ! j = (j \<le> i))"
    using casual_mask_lower_triangular [of 3] by blast
  have "M ! 2 ! 1 = (1 \<le> (2::nat))" "M ! 1 ! 2 = (2 \<le> (1::nat))" "M ! 1 ! 1 = (1 \<le> (1::nat))"
    using rows by simp_all
  then show ?thesis
    using M by simp
qed

subsection \<open>Construction of a multi-head attention block\<close>

text \<open>
  C3. Constructing a block whose model dimension is not a multiple of the head count
  fails: with \<^verbatim>\<open>AssertionError\<close> from the assertion, or with
  \<^verbatim>\<open>ZeroDivisionError\<close> from its condition when the head count is zero. When the
  model dimension is a multiple of the (non-zero) head count, and the arguments are
  ones the layers of the library accept (a dimension that is not negative, a dropout
  probability in \<open>[0, 1]\<close>), construction succeeds and the per-head dimension is
  \<open>d_model div h\<close>, so that \<open>h\<close> heads of that size make up \<open>d_model\<close>. Construction
  never succeeds otherwise.
\<close>

theorem mha_init_divisibility:
  "(h = 0 \<longrightarrow> MultiHeadAttentionBlock_init d_model h dropout = Inl ZeroDivisionError)
   \<and> (h \<noteq> 0 \<and> d_model mod h \<noteq> 0 \<longrightarrow>
         MultiHeadAttentionBlock_init d_model h dropout = Inl AssertionError)
   \<and> (h \<noteq> 0 \<and> d_model mod h = 0 \<and> 0 \<le> d_model \<and> 0 \<le> dropout \<and> dropout \<le> 1 \<longrightarrow>
         (\<exists>blk. MultiHeadAttentionBlock_init d_model h dropout = Inr blk
                \<and> mha_d_model blk = d_model \<and> mha_h blk = h
                \<and> mha_d_k blk = d_model div h \<and> mha_d_k blk * h = d_model))
   \<and> ((\<exists>blk. MultiHeadAttentionBlock_init d_model h dropout = Inr blk) \<longrightarrow>
         h \<noteq> 0 \<and> d_model mod h = 0)"
  by (auto simp: MultiHeadAttentionBlock_init_def Linear_init_def Dropout_init_def Let_def
           split: if_splits sum.splits)

theorem mha_init_divisibility_witness:
  "MultiHeadAttentionBlock_init 10 3 (1/10) = Inl AssertionError
   \<and> MultiHeadAttentionBlock_init 10 0 (1/10) = Inl ZeroDivisionError
   \<and> (\<exists>blk. MultiHeadAttentionBlock_init 512 8 (1/10) = Inr blk \<and> mha_d_k blk = 64)"
  using mha_init_divisibility [of 3 10 "1/10"] mha_init_divisibility [of 0 10 "1/10"]
        mha_init_divisibility [of 8 512 "1/10"]
  by auto

subsection \<open>Dataset examples\<close>

lemma getitem_cases:
  assumes "index < length (ds self)"
  defines "enc \<equiv> tokenizer_src self (fst (ds self ! index))"
      and "dec \<equiv> tokenizer_tgt self (snd (ds self ! index))"
  shows "getitem self index =
     (if ds_seq_len self - 2 < int (length enc) \<or> ds_seq_len self - 1 < int (length dec)
      then Inl ValueError
      else Inr \<lparr>item_encoder_input = [sos_token self] @ enc @ [eos_token self]
                   @ replicate (nat (ds_seq_len self - int (length enc) - 2)) (pad_token self),
                item_decoder_input = [sos_token self] @ dec
                   @ replicate (nat (ds_seq_len self - int (length dec) - 1)) (pad_token self),
                item_encoder_mask = [[padding_mask (pad_token self)
                   ([sos_token self] @ enc @ [eos_token self]
                     @ replicate (nat (ds_seq_len self - int (length enc) - 2)) (pad_token self))]],
                item_decoder_mask = and_masks (padding_mask (pad_token self)
                   ([sos_token self] @ dec
                     @ replicate (nat (ds_seq_len self - int (length dec) - 1)) (pad_token self)))
                   (casual_mask (length ([sos_token self] @ dec
                     @ replicate (nat (ds_seq_len self - int (length dec) - 1)) (pad_token self)))),
                item_label = dec @ [eos_token self]
                   @ replicate (nat (ds_seq_len self - int (length dec) - 1)) (pad_token self),
                item_src_text = fst (ds self ! index),
                item_tgt_text = snd (ds self ! index)\<rparr>)"
  using assms(1) unfolding enc_def dec_def getitem_def Let_def
  by (auto simp: not_le)

text \<open>
  C7. Fetching an example (at an index of the dataset) raises \<^verbatim>\<open>ValueError\<close>
  exactly when the tokenized source has more than \<open>seq_len - 2\<close> tokens or the
  tokenized target more than \<open>seq_len - 1\<close>; it raises nothing else (the three
  assertions on the lengths never fail). On success the encoder input, the decoder
  input and the label have exactly \<open>seq_len\<close> entries, and nothing was truncated: the
  encoder input starts with the start token and all source tokens, the decoder input
  with the start token and all target tokens, the label with all target tokens.
\<close>

theorem getitem_too_long_iff:
  assumes "index < length (ds self)"
  shows "(getitem self index = Inl ValueError \<longleftrightarrow>
            ds_seq_len self - 2 < int (length (tokenizer_src self (fst (ds self ! index))))
          \<or> ds_seq_len self - 1 < int (length (tokenizer_tgt self (snd (ds self ! index)))))
       \<and> (\<forall>e. getitem self index = Inl e \<longrightarrow> e = ValueError)
       \<and> (\<forall>item. getitem self index = Inr item \<longrightarrow>
            int (length (item_encoder_input item)) = ds_seq_len self
          \<and> int (length (item_decoder_input item)) = ds_seq_len self
          \<and> int (length (item_label item)) = ds_seq_len self
          \<and> take (Suc (length (tokenizer_src self (fst (ds self ! index))))) (item_encoder_input item)
               = sos_token self # tokenizer_src self (fst (ds self ! index))
          \<and> take (Suc (length (tokenizer_tgt self (snd (ds self ! index))))) (item_decoder_input item)
               = sos_token self # tokenizer_tgt self (snd (ds self ! index))
          \<and> take (length (tokenizer_tgt self (snd (ds self ! index)))) (item_label item)
               = tokenizer_tgt self (snd (ds self ! index)))"
  unfolding getitem_cases [OF assms]
  by (auto split: if_splits)

theorem getitem_too_long_iff_witness:
  "getitem long_ds 0 = Inl ValueError
   \<and> (\<exists>item. getitem example_ds 0 = Inr item \<and> length (item_encoder_input item) = 10
         \<and> length (item_decoder_input item) = 10 \<and> length (item_label item) = 10)"
proof -
  have a: "(0::nat) < length (ds long_ds)" "(0::nat) < length (ds example_ds)"
    by (simp_all add: long_ds_def example_ds_def)
  have "getitem long_ds 0 = Inl ValueError"
    using getitem_too_long_iff [OF a(1)] by (simp add: long_ds_def)
  moreover have "getitem example_ds 0 \<noteq> Inl ValueError"
    using getitem_too_long_iff [OF a(2)] by (simp add: example_ds_def)
  then obtain item where "getitem example_ds 0 = Inr item"
    using getitem_too_long_iff [OF a(2)] by (cases "getitem example_ds 0") auto
  moreover from this have "int (length (item_encoder_input item)) = 10
      \<and> int (length (item_decoder_input item)) = 10 \<and> int (length (item_label item)) = 10"
    using getitem_too_long_iff [OF a(2)] by (simp add: example_ds_def)
  ultimately show ?thesis by auto
qed

text \<open>
  C8. For every example the dataset produces, the encoder mask is one row (under two
  leading axes of size one) as long as the encoder input, whose entry is 0 exactly
  at the positions that hold the pad token id and 1 everywhere else. The witness is
  the scenario of the specification: sequence length 10, pad id 1, five source
  tokens, so that the mask is 0 exactly at positions 7, 8 and 9.
\<close>

theorem encoder_mask_marks_padding:
  assumes "getitem self index = Inr item"
  shows "\<exists>m. item_encoder_mask item = [[m]] \<and> length m = length (item_encoder_input item)
           \<and> (\<forall>j<length m. (m ! j = 0 \<longleftrightarrow> item_encoder_input item ! j = pad_token self)
                          \<and> (m ! j = 1 \<longleftrightarrow> item_encoder_input item ! j \<noteq> pad_token self))"
proof -
  have idx: "index < length (ds self)"
    using assms by (auto simp: getitem_def split: if_splits)
  have "item_encoder_mask item = [[padding_mask (pad_token self) (item_encoder_input item)]]"
    using assms unfolding getitem_cases [OF idx] by (auto split: if_splits)
  then show ?thesis
    by (simp add: padding_mask_def)
qed

theorem encoder_mask_marks_padding_witness:
  "\<exists>item m. getitem example_ds 0 = Inr item
      \<and> item_encoder_input item = [2, 5, 6, 7, 8, 9, 3, 1, 1, 1]
      \<and> item_encoder_mask item = [[m]] \<and> length m = 10
      \<and> {j. j < length m \<and> m ! j = 0} = {7, 8, 9}"
proof -
  have idx: "(0::nat) < length (ds example_ds)"
    by (simp add: example_ds_def)
  have g: "getitem example_ds 0 = Inr \<lparr>item_encoder_input = [2, 5, 6, 7, 8, 9, 3, 1, 1, 1],
      item_decoder_input = [2, 4, 5, 1, 1, 1, 1, 1, 1, 1],
      item_encoder_mask = [[padding_mask 1 [2, 5, 6, 7, 8, 9, 3, 1, 1, 1]]],
      item_decoder_mask = and_masks (padding_mask 1 [2, 4, 5, 1, 1, 1, 1, 1, 1, 1]) (casual_mask 10),
      item_label = [4, 5, 3, 1, 1, 1, 1, 1, 1, 1],
      item_src_text = ''src'', item_tgt_text = ''tgt''\<rparr>"
    unfolding getitem_cases [OF idx]
    by (simp add: example_ds_def eval_nat_numeral)
  obtain m where m: "item_encoder_mask \<lparr>item_encoder_input = [2, 5, 6, 7, 8, 9, 3, 1, 1, 1],
      item_decoder_input = [2, 4, 5, 1, 1, 1, 1, 1, 1, 1],
      item_encoder_mask = [[padding_mask 1 [2, 5, 6, 7, 8, 9, 3, 1, 1, 1]]],
      item_decoder_mask = and_masks (padding_mask 1 [2, 4, 5, 1, 1, 1, 1, 1, 1, 1]) (casual_mask 10),
      item_label = [4, 5, 3, 1, 1, 1, 1, 1, 1, 1],
      item_src_text = ''src'', item_tgt_text = ''tgt''\<rparr> = [[m]]" "length m = 10"
    and ch: "\<forall>j<length m. (m ! j = 0 \<longleftrightarrow> [2, 5, 6, 7, 8, 9, 3, 1, 1, (1::int)] ! j = pad_token example_ds)"
    using encoder_mask_marks_padding [OF g] by auto
  have "{j. j < length m \<and> m ! j = 0} = {7, 8, 9}"
  proof -
    have "\<And>j. j < 10 \<Longrightarrow> ([2, 5, 6, 7, 8, 9, 3, 1, 1, (1::int)] ! j = 1) = (j \<in> {7, 8, 9})"
      by (auto simp: less_Suc_eq eval_nat_numeral)
    then show ?thesis
      using ch m(2) by (auto simp: example_ds_def)
  qed
  then show ?thesis
    using g m by auto
qed


subsection \<open>Greedy decoding\<close>

lemma greedy_loop_stop:
  "int (length dec) = max_len \<Longrightarrow>
     greedy_loop M enc msk eos max_len dec st calls = Some (Inr (dec, st, calls))"
  by (subst greedy_loop.simps) simp

lemma greedy_loop_step:
  assumes "int (length dec) \<noteq> max_len"
    and "decode M enc msk dec (type_as_int (casual_mask (length dec))) st = Inr (out, st1)"
    and "out \<noteq> []"
    and "project M (last out) st1 = Inr (prob, st2)"
    and "torch_max prob = Inr w"
  shows "greedy_loop M enc msk eos max_len dec st calls =
     (if w = eos
      then Some (Inr (dec @ [w], st2,
                      calls @ [Decode dec (type_as_int (casual_mask (length dec))), Project]))
      else greedy_loop M enc msk eos max_len (dec @ [w]) st2
             (calls @ [Decode dec (type_as_int (casual_mask (length dec))), Project]))"
  using assms by (subst greedy_loop.simps) (auto simp: Let_def split: list.splits)

lemma greedy_loop_raises:
  assumes "int (length dec) \<noteq> max_len"
    and "\<not> (\<exists>out st1 prob st2 w.
            decode M enc msk dec (type_as_int (casual_mask (length dec))) st = Inr (out, st1)
          \<and> out \<noteq> [] \<and> project M (last out) st1 = Inr (prob, st2) \<and> torch_max prob = Inr w)"
  shows "\<exists>e. greedy_loop M enc msk eos max_len dec st calls = Some (Inl e)"
  using assms
  by (subst greedy_loop.simps) (auto simp: Let_def split: list.splits sum.splits prod.splits)

lemma take_Suc_snoc:
  assumes "take (Suc n) seq = dec @ [w]" and "length dec = n"
  shows "take n seq = dec" and "seq ! n = w" and "n < length seq"
proof -
  have "length (take (Suc n) seq) = Suc n"
    using assms by simp
  then show lt: "n < length seq"
    by simp
  have "take n seq = take n (take (Suc n) seq)"
    by simp
  then show "take n seq = dec"
    using assms by simp
  have "seq ! n = take (Suc n) seq ! n"
    by simp
  then show "seq ! n = w"
    using assms by (auto simp: nth_append)
qed

lemma greedy_post_stop:
  "int (length dec) = max_len \<Longrightarrow> greedy_post M enc msk eos max_len dec calls dec calls"
  by (auto simp: greedy_post_def)

lemma greedy_post_eos:
  assumes "decode M enc msk dec (type_as_int (casual_mask (length dec))) st = Inr (out, st1)"
    and "out \<noteq> []"
    and "project M (last out) st1 = Inr (prob, st2)"
    and "torch_max prob = Inr eos"
  shows "greedy_post M enc msk eos max_len dec calls (dec @ [eos])
           (calls @ [Decode dec (type_as_int (casual_mask (length dec))), Project])"
proof -
  have "\<exists>sa out sb prob sc.
                decode M enc msk (take n (dec @ [eos])) (type_as_int (casual_mask n)) sa = Inr (out, sb)
              \<and> out \<noteq> [] \<and> project M (last out) sb = Inr (prob, sc)
              \<and> torch_max prob = Inr ((dec @ [eos]) ! n)"
    if "length dec \<le> n \<and> n < length (dec @ [eos])" for n
  proof -
    have "n = length dec" using that by simp
    then have "take n (dec @ [eos]) = dec" "(dec @ [eos]) ! n = eos"
      by simp_all
    then show ?thesis
      using assms \<open>n = length dec\<close> by metis
  qed
  then show ?thesis
    unfolding greedy_post_def by simp
qed

lemma greedy_post_rec:
  assumes "decode M enc msk dec (type_as_int (casual_mask (length dec))) st = Inr (out, st1)"
    and "out \<noteq> []"
    and "project M (last out) st1 = Inr (prob, st2)"
    and "torch_max prob = Inr w"
    and "w \<noteq> eos"
    and p: "greedy_post M enc msk eos max_len (dec @ [w])
           (calls @ [Decode dec (type_as_int (casual_mask (length dec))), Project]) seq calls'"
  shows "greedy_post M enc msk eos max_len dec calls seq calls'"
proof -
  have tk: "take (Suc (length dec)) seq = dec @ [w]"
    using p by (simp add: greedy_post_def)
  note sn = take_Suc_snoc [OF tk refl]
  have upt: "[length dec..<length seq] = length dec # [Suc (length dec)..<length seq]"
    using sn(3) by (simp add: upt_conv_Cons)
  have "calls' = (calls @ [Decode dec (type_as_int (casual_mask (length dec))), Project])
     @ concat (map (\<lambda>n. [Decode (take n seq) (type_as_int (casual_mask n)), Project])
                   [Suc (length dec)..<length seq])"
    using p by (simp add: greedy_post_def)
  then have c: "calls' = calls @ concat (map (\<lambda>n. [Decode (take n seq) (type_as_int (casual_mask n)),
                                               Project]) [length dec..<length seq])"
    using sn(1) by (simp add: upt)
  have each: "\<exists>sa out sb prob sc.
                decode M enc msk (take n seq) (type_as_int (casual_mask n)) sa = Inr (out, sb)
              \<and> out \<noteq> [] \<and> project M (last out) sb = Inr (prob, sc)
              \<and> torch_max prob = Inr (seq ! n)"
    if "length dec \<le> n \<and> n < length seq" for n
  proof (cases "n = length dec")
    case True
    then show ?thesis using assms(1-4) sn(1,2) by metis
  next
    case False
    then have "length (dec @ [w]) \<le> n \<and> n < length seq"
      using that by simp
    then show ?thesis using p unfolding greedy_post_def by blast
  qed
  have noeos: "seq ! n \<noteq> eos" if "length dec \<le> n \<and> Suc n < length seq" for n
  proof (cases "n = length dec")
    case True
    then show ?thesis using sn(2) \<open>w \<noteq> eos\<close> by simp
  next
    case False
    then have "length (dec @ [w]) \<le> n \<and> Suc n < length seq"
      using that by simp
    then show ?thesis using p unfolding greedy_post_def by blast
  qed
  have stop: "int (length seq) = max_len \<or> (length dec < length seq \<and> last seq = eos)"
    using p sn(3) unfolding greedy_post_def by blast
  show ?thesis
    unfolding greedy_post_def
    using sn(1) sn(3) stop c each noeos by (intro conjI allI impI) simp_all
qed

lemma greedy_loop_partial:
  assumes "greedy_loop M enc msk eos max_len dec st calls = Some r"
  shows "\<forall>seq st' calls'. r = Inr (seq, st', calls') \<longrightarrow>
           greedy_post M enc msk eos max_len dec calls seq calls'"
proof (rule greedy_loop.raw_induct [where P = "\<lambda>M enc msk eos max_len dec st calls r.
         \<forall>seq st' calls'. r = Inr (seq, st', calls') \<longrightarrow>
           greedy_post M enc msk eos max_len dec calls seq calls'", OF _ assms], goal_cases)
  case (1 f M enc msk eos max_len dec st calls r)
  note IH = 1(1) and body0 = 1(2)
  let ?m = "type_as_int (casual_mask (length dec))"
  let ?calls = "calls @ [Decode dec ?m, Project]"
  show ?case
  proof (intro allI impI)
    fix seq st' calls'
    assume r: "r = Inr (seq, st', calls')"
    show "greedy_post M enc msk eos max_len dec calls seq calls'"
    proof (cases "int (length dec) = max_len")
      case True
      then have "seq = dec" "calls' = calls"
        using body0 r by simp_all
      then show ?thesis
        using greedy_post_stop [OF True] by simp
    next
      case False
      then obtain out st1 where d: "decode M enc msk dec ?m st = Inr (out, st1)"
        using body0 r by (cases "decode M enc msk dec ?m st") (auto simp: Let_def)
      have o: "out \<noteq> []"
        using body0 r False d by (auto simp: Let_def)
      obtain prob st2 where pr: "project M (last out) st1 = Inr (prob, st2)"
        using body0 r False d o
        by (cases "project M (last out) st1") (auto simp: Let_def split: list.splits)
      obtain w where tm: "torch_max prob = Inr w"
        using body0 r False d o pr
        by (cases "torch_max prob") (auto simp: Let_def split: list.splits)
      have body: "(if w = eos then Some (Inr (dec @ [w], st2, ?calls))
                  else f M enc msk eos max_len (dec @ [w]) st2 ?calls) = Some r"
        using body0 False d o pr tm by (auto simp: Let_def split: list.splits)
      show ?thesis
      proof (cases "w = eos")
        case True
        then have "seq = dec @ [eos]" "calls' = ?calls"
          using body r by simp_all
        then show ?thesis
          using greedy_post_eos [OF d o pr] tm True by simp
      next
        case False
        then have "f M enc msk eos max_len (dec @ [w]) st2 ?calls = Some r"
          using body by simp
        then have "greedy_post M enc msk eos max_len (dec @ [w]) ?calls seq calls'"
          using IH r by blast
        then show ?thesis
          by (rule greedy_post_rec [OF d o pr tm False])
      qed
    qed
  qed
qed

lemma greedy_loop_total:
  assumes "int (length dec) \<le> max_len"
  shows "\<exists>r. greedy_loop M enc msk eos max_len dec st calls = Some r \<and>
     (\<forall>seq st' calls'. r = Inr (seq, st', calls') \<longrightarrow> int (length seq) \<le> max_len)"
  using assms
proof (induction "nat max_len - length dec" arbitrary: dec st calls)
  case 0
  then have eq: "int (length dec) = max_len"
    by linarith
  then have "greedy_loop M enc msk eos max_len dec st calls = Some (Inr (dec, st, calls))"
    by (rule greedy_loop_stop)
  then show ?case
    using eq by simp
next
  case (Suc k)
  let ?m = "type_as_int (casual_mask (length dec))"
  let ?calls = "calls @ [Decode dec ?m, Project]"
  from Suc.hyps(2) Suc.prems have neq: "int (length dec) \<noteq> max_len"
    and lt: "int (length dec) < max_len"
    by linarith+
  show ?case
  proof (cases "\<exists>out st1 prob st2 w.
            decode M enc msk dec ?m st = Inr (out, st1)
          \<and> out \<noteq> [] \<and> project M (last out) st1 = Inr (prob, st2) \<and> torch_max prob = Inr w")
    case False
    from greedy_loop_raises [OF neq False, of eos calls]
    obtain e where "greedy_loop M enc msk eos max_len dec st calls = Some (Inl e)"
      by (elim exE)
    then show ?thesis
      by simp
  next
    case True
    then obtain out st1 prob st2 w where
      d: "decode M enc msk dec ?m st = Inr (out, st1)" and o: "out \<noteq> []"
      and pr: "project M (last out) st1 = Inr (prob, st2)" and tm: "torch_max prob = Inr w"
      by (elim exE conjE)
    note step = greedy_loop_step [OF neq d o pr tm, of eos calls]
    show ?thesis
    proof (cases "w = eos")
      case True
      then have "greedy_loop M enc msk eos max_len dec st calls
                       = Some (Inr (dec @ [eos], st2, ?calls))"
        using step by simp
      then show ?thesis
        using lt by simp
    next
      case False
      then have rec: "greedy_loop M enc msk eos max_len dec st calls
                       = greedy_loop M enc msk eos max_len (dec @ [w]) st2 ?calls"
        using step by simp
      have k: "k = nat max_len - length (dec @ [w])"
        using Suc.hyps(2) by simp
      have le: "int (length (dec @ [w])) \<le> max_len"
        using lt by simp
      show ?thesis
        using Suc.hyps(1) [OF k le, of st2 ?calls] rec by simp
    qed
  qed
qed



text \<open>
  C10. For every model (its methods may raise and may be stochastic), every source,
  source mask, start state and every \<open>max_len \<ge> 1\<close>, greedy decoding terminates:
  it raises or it returns. A returned sequence begins with the start token, has at
  least one and at most \<open>max_len\<close> tokens, and was built one token per iteration: the
  log of the model's methods called is \<^verbatim>\<open>encode\<close> followed, for
  \<open>n = 1, ..., length seq - 1\<close>, by \<^verbatim>\<open>decode\<close> on the first \<open>n\<close> tokens of the
  result and \<^verbatim>\<open>project\<close>, so that there are \<open>length seq - 1\<close> iterations and the
  decoder input of iteration \<open>n\<close> has exactly \<open>n\<close> tokens.
\<close>

theorem greedy_decode_terminates:
  assumes "1 \<le> max_len"
  shows "\<exists>r. greedy_decode M source source_mask sos_idx eos_idx max_len st = Some r \<and>
     (\<forall>seq st' calls. r = Inr (seq, st', calls) \<longrightarrow>
         seq \<noteq> [] \<and> hd seq = sos_idx \<and> int (length seq) \<le> max_len
       \<and> calls = Encode # concat (map (\<lambda>n. [Decode (take n seq) (type_as_int (casual_mask n)),
                                              Project]) [1..<length seq]))"
proof (cases "encode M source source_mask st")
  case (Inl e)
  then show ?thesis
    by (simp add: greedy_decode_def)
next
  case (Inr a)
  then obtain enc st1 where e: "encode M source source_mask st = Inr (enc, st1)"
    by (cases a) simp
  then have gd: "greedy_decode M source source_mask sos_idx eos_idx max_len st
           = greedy_loop M enc source_mask eos_idx max_len [sos_idx] st1 [Encode]"
    by (simp add: greedy_decode_def)
  have "int (length [sos_idx]) \<le> max_len"
    using assms by simp
  from greedy_loop_total [OF this, of M enc source_mask eos_idx st1 "[Encode]"]
  obtain r where r: "greedy_loop M enc source_mask eos_idx max_len [sos_idx] st1 [Encode] = Some r"
    and bound: "\<forall>seq st' calls'. r = Inr (seq, st', calls') \<longrightarrow> int (length seq) \<le> max_len"
    by (elim exE conjE)
  have "seq \<noteq> [] \<and> hd seq = sos_idx \<and> int (length seq) \<le> max_len
       \<and> calls = Encode # concat (map (\<lambda>n. [Decode (take n seq) (type_as_int (casual_mask n)),
                                              Project]) [1..<length seq])"
    if req: "r = Inr (seq, st', calls)" for seq st' calls
  proof -
    have "greedy_post M enc source_mask eos_idx max_len [sos_idx] [Encode] seq calls"
      using greedy_loop_partial [OF r] req by blast
    then have tk: "take 1 seq = [sos_idx]" and le: "1 \<le> length seq"
      and c: "calls = [Encode] @ concat (map (\<lambda>n. [Decode (take n seq) (type_as_int (casual_mask n)),
                                              Project]) [1..<length seq])"
      by (simp_all add: greedy_post_def)
    from le have ne: "seq \<noteq> []" by auto
    have "hd seq = sos_idx" using tk ne by (cases seq) simp_all
    then show ?thesis
      using ne c bound req by simp
  qed
  then show ?thesis
    using gd r by simp
qed


lemma never_eos_run:
  "greedy_decode never_eos_model () () 2 3 3 ()
     = Some (Inr ([2, 0, 0], (),
                  [Encode, Decode [2] (type_as_int (casual_mask 1)), Project,
                   Decode [2, 0] (type_as_int (casual_mask 2)), Project]))"
  unfolding greedy_decode_def never_eos_model_def
  apply simp
  apply (subst greedy_loop.simps, simp add: torch_max_def)
  apply (subst greedy_loop.simps, simp add: torch_max_def)
  apply (subst greedy_loop.simps, simp add: torch_max_def numeral_2_eq_2)
  done

theorem greedy_decode_terminates_witness:
  "(1::int) \<le> 3 \<and>
   (\<exists>seq st' calls. greedy_decode never_eos_model () () 2 3 3 () = Some (Inr (seq, st', calls))
      \<and> seq = [2, 0, 0] \<and> hd seq = 2 \<and> int (length seq) \<le> 3)"
proof -
  have h: "(1::int) \<le> 3" by simp
  show ?thesis
    using greedy_decode_terminates [OF h, of never_eos_model "()" "()" 2 3 "()"] never_eos_run
    by simp
qed






subsection \<open>The positional encoding table\<close>

lemma length_div_term: "length (div_term d) = nat ((d + 1) div 2)"
  by (simp add: div_term_def arange2_def)

lemma div_term_nth:
  "i < nat ((d + 1) div 2) \<Longrightarrow>
     div_term d ! i = exp (real (2 * i) * (- ln 10000 / real_of_int d))"
  by (simp add: div_term_def arange2_def)

lemma length_set_strided: "length (set_strided start src row) = length row"
  by (simp add: set_strided_def)

lemma set_strided_nth:
  "j < length row \<Longrightarrow>
     set_strided start src row ! j =
       (if start \<le> j \<and> even (j - start)
        then (if length src = 1 then src ! 0 else src ! ((j - start) div 2))
        else row ! j)"
  by (simp add: set_strided_def nth_enumerate_eq del: even_diff_nat)

lemma pe_row_entry:
  assumes "j < d" and cols: "length dt = (d + 1) div 2"
  shows "set_strided 1 (map cos (map (\<lambda>t. x * t) dt))
           (set_strided 0 (map sin (map (\<lambda>t. x * t) dt)) (replicate d 0)) ! j
         = (if even j then sin (x * dt ! (j div 2)) else cos (x * dt ! (j div 2)))"
proof -
  have idx: "j div 2 < length dt"
    using assms by (simp add: less_mult_imp_div_less) 
  have one: "length dt = 1 \<Longrightarrow> j div 2 = 0"
    using idx by simp
  show ?thesis
  proof (cases "even j")
    case True
    then have "\<not> (1 \<le> j \<and> even (j - 1))"
      by auto
    then show ?thesis
      using assms True idx one
      by (simp add: set_strided_nth length_set_strided)
  next
    case False
    then have "1 \<le> j \<and> even (j - 1)" and "(j - 1) div 2 = j div 2"
      by (auto elim!: oddE)
    then show ?thesis
      using assms False idx one
      by (simp add: set_strided_nth length_set_strided)
  qed
qed


lemma map2_replicate:
  "length xs = n \<Longrightarrow> map2 f xs (replicate n c) = map (\<lambda>s. f s c) xs"
  by (rule nth_equalityI) simp_all

lemma map2_map_map:
  "map2 f (map g xs) (map h xs) = map (\<lambda>x. f (g x) (h x)) xs"
  by (rule nth_equalityI) simp_all

lemma length_position: "length (position seq_len) = nat seq_len"
  by (simp add: position_def)

lemma PositionalEncoding_init_ok:
  assumes "0 < d_model" and "even d_model \<or> d_model = 1" and "0 \<le> seq_len"
    and "0 \<le> dropout" and "dropout \<le> 1"
  shows "PositionalEncoding_init d_model seq_len dropout =
     Inr \<lparr>pe_d_model = d_model, pe_seq_len = seq_len,
          pe_dropout = \<lparr>dropout_p = dropout, training = True\<rparr>,
          pe = [map (\<lambda>x. set_strided 1 (map cos (map (\<lambda>t. x * t) (div_term d_model)))
                          (set_strided 0 (map sin (map (\<lambda>t. x * t) (div_term d_model)))
                             (replicate (nat d_model) 0)))
                    (position seq_len)]\<rparr>"
proof -
  have c0: "length (div_term d_model) = slice_len 0 (nat d_model)"
    using assms(1) by (simp add: length_div_term slice_len_def nat_div_distrib nat_add_distrib)
  have c1: "length (div_term d_model) = slice_len 1 (nat d_model) \<or> length (div_term d_model) = 1"
  proof (cases "d_model = 1")
    case True
    then show ?thesis by (simp add: length_div_term)
  next
    case False
    then have "even d_model" using assms(2) by simp
    then obtain b where b: "d_model = 2 * b"
      by (elim evenE)
    have "(d_model + 1) div 2 = b"
      unfolding b by presburger
    moreover have "nat d_model div 2 = nat b"
      unfolding b using assms(1) by (simp add: nat_mult_distrib)
    ultimately have "nat ((d_model + 1) div 2) = nat d_model div 2"
      by simp
    then show ?thesis by (simp add: length_div_term slice_len_def)
  qed
  have a0: "assign_strided 0 (nat d_model) (length (div_term d_model))
              (map (map sin) (map (\<lambda>pos. map (\<lambda>t. pos * t) (div_term d_model)) (position seq_len)))
              (replicate (nat seq_len) (replicate (nat d_model) 0))
            = Inr (map (\<lambda>x. set_strided 0 (map sin (map (\<lambda>t. x * t) (div_term d_model)))
                             (replicate (nat d_model) 0)) (position seq_len))"
    using c0 by (simp add: assign_strided_def map2_replicate length_position comp_def)
  have a1: "assign_strided 1 (nat d_model) (length (div_term d_model))
              (map (map cos) (map (\<lambda>pos. map (\<lambda>t. pos * t) (div_term d_model)) (position seq_len)))
              (map (\<lambda>x. set_strided 0 (map sin (map (\<lambda>t. x * t) (div_term d_model)))
                             (replicate (nat d_model) 0)) (position seq_len))
            = Inr (map (\<lambda>x. set_strided 1 (map cos (map (\<lambda>t. x * t) (div_term d_model)))
                          (set_strided 0 (map sin (map (\<lambda>t. x * t) (div_term d_model)))
                             (replicate (nat d_model) 0))) (position seq_len))"
    using c1 by (auto simp: assign_strided_def map2_map_map comp_def)
  have dr: "Dropout_init dropout = Inr \<lparr>dropout_p = dropout, training = True\<rparr>"
    using assms by (simp add: Dropout_init_def)
  have g: "\<not> (seq_len < 0 \<or> d_model < 0)" "d_model \<noteq> 0"
    using assms by auto
  show ?thesis
    unfolding PositionalEncoding_init_def Let_def dr
    by (simp only: sum.case g if_False a0 a1)
qed


text \<open>An odd model dimension of 3 or more: the cosine columns do not fit the odd slice.\<close>

lemma PositionalEncoding_init_odd:
  assumes "odd d_model" and "3 \<le> d_model" and "0 \<le> seq_len"
    and "0 \<le> dropout" and "dropout \<le> 1"
  shows "PositionalEncoding_init d_model seq_len dropout = Inl RuntimeError"
proof -
  obtain b where b: "d_model = 2 * b + 1"
    using assms(1) by (elim oddE)
  have bpos: "1 \<le> b"
    using assms(2) b by simp
  have "(d_model + 1) div 2 = b + 1"
    unfolding b by presburger
  then have len: "length (div_term d_model) = nat b + 1"
    using bpos by (simp add: length_div_term nat_add_distrib)
  have "nat d_model = 2 * nat b + 1"
    unfolding b using bpos by (simp add: nat_add_distrib nat_mult_distrib)
  then have s0: "slice_len 0 (nat d_model) = nat b + 1"
    and s1: "slice_len (Suc 0) (nat d_model) = nat b"
    by (simp_all add: slice_len_def)
  have ne: "nat b + 1 \<noteq> nat b" "nat b + 1 \<noteq> 1"
    using bpos by simp_all
  have a0: "\<And>src dst. assign_strided 0 (nat d_model) (length (div_term d_model)) src dst
              = Inr (map2 (set_strided 0) src dst)"
    by (simp add: assign_strided_def len s0)
  have a1: "\<And>src dst. assign_strided 1 (nat d_model) (length (div_term d_model)) src dst
              = Inl RuntimeError"
    using ne by (simp add: assign_strided_def len s1)
  have dr: "Dropout_init dropout = Inr \<lparr>dropout_p = dropout, training = True\<rparr>"
    using assms by (simp add: Dropout_init_def)
  have g: "\<not> (seq_len < 0 \<or> d_model < 0)" "d_model \<noteq> 0"
    using assms by auto
  show ?thesis
    unfolding PositionalEncoding_init_def Let_def dr
    by (simp only: sum.case g if_False a0 a1)
qed

lemma pe_table_entry:
  assumes "0 < d_model" and "pos < nat seq_len" and "j < nat d_model"
  shows "map (\<lambda>x. set_strided 1 (map cos (map (\<lambda>t. x * t) (div_term d_model)))
                          (set_strided 0 (map sin (map (\<lambda>t. x * t) (div_term d_model)))
                             (replicate (nat d_model) 0)))
                    (position seq_len) ! pos ! j
         = (if even j
            then sin (real pos * exp (real (2 * (j div 2)) * (- ln 10000 / real_of_int d_model)))
            else cos (real pos * exp (real (2 * (j div 2)) * (- ln 10000 / real_of_int d_model))))"
proof -
  have cols: "length (div_term d_model) = (nat d_model + 1) div 2"
    using assms(1) by (simp add: length_div_term nat_div_distrib nat_add_distrib)
  have idx: "j div 2 < nat ((d_model + 1) div 2)"
    using assms(3) cols by (simp add: length_div_term less_mult_imp_div_less)
  have p: "position seq_len ! pos = real pos"
    using assms(2) by (simp add: position_def)
  have row: "map (\<lambda>x. set_strided 1 (map cos (map (\<lambda>t. x * t) (div_term d_model)))
                          (set_strided 0 (map sin (map (\<lambda>t. x * t) (div_term d_model)))
                             (replicate (nat d_model) 0)))
                    (position seq_len) ! pos
        = set_strided 1 (map cos (map (\<lambda>t. real pos * t) (div_term d_model)))
                          (set_strided 0 (map sin (map (\<lambda>t. real pos * t) (div_term d_model)))
                             (replicate (nat d_model) 0))"
    using assms(2) by (simp only: nth_map length_position p)
  show ?thesis
    by (simp only: row pe_row_entry [OF assms(3) cols] div_term_nth [OF idx])
qed

text \<open>
  C6. For a positive model dimension that is even (or 1: an odd dimension of 3 or
  more makes the second slice assignment fail), a sequence length that is not
  negative and a dropout probability the dropout layer accepts, the constructor
  builds one table \<open>T\<close> (under a leading axis of size one) with \<open>seq_len\<close> rows of
  \<open>d_model\<close> entries: entry \<open>j\<close> of row \<open>pos\<close> is the sine of
  \<open>pos * exp (2 * (j div 2) * (- ln 10000 / d_model))\<close> when \<open>j\<close> is even and the
  cosine of the same angle when \<open>j\<close> is odd, so the row of position 0 is
  \<open>0, 1, 0, 1, ...\<close>. The table is a function of \<open>d_model\<close> and \<open>seq_len\<close> alone:
  building it again, with any dropout probability, gives the same table.
\<close>

theorem positional_encoding_table:
  assumes "0 < d_model" and "even d_model \<or> d_model = 1" and "0 \<le> seq_len"
    and "0 \<le> dropout" and "dropout \<le> 1"
  shows "\<exists>P T. PositionalEncoding_init d_model seq_len dropout = Inr P
     \<and> pe P = [T] \<and> length T = nat seq_len
     \<and> (\<forall>pos<nat seq_len. length (T ! pos) = nat d_model
          \<and> (\<forall>j<nat d_model. T ! pos ! j =
                (if even j
                 then sin (real pos * exp (real (2 * (j div 2)) * (- ln 10000 / real_of_int d_model)))
                 else cos (real pos * exp (real (2 * (j div 2)) * (- ln 10000 / real_of_int d_model))))))
     \<and> (0 < seq_len \<longrightarrow> (\<forall>j<nat d_model. T ! 0 ! j = (if even j then 0 else 1)))
     \<and> (\<forall>dropout'. 0 \<le> dropout' \<and> dropout' \<le> 1 \<longrightarrow>
           (\<exists>P'. PositionalEncoding_init d_model seq_len dropout' = Inr P' \<and> pe P' = [T]))"
proof -
  let ?T = "map (\<lambda>x. set_strided 1 (map cos (map (\<lambda>t. x * t) (div_term d_model)))
                          (set_strided 0 (map sin (map (\<lambda>t. x * t) (div_term d_model)))
                             (replicate (nat d_model) 0)))
                    (position seq_len)"
  let ?P = "\<lparr>pe_d_model = d_model, pe_seq_len = seq_len,
          pe_dropout = \<lparr>dropout_p = dropout, training = True\<rparr>, pe = [?T]\<rparr>"
  have ok: "PositionalEncoding_init d_model seq_len dropout = Inr ?P"
    by (rule PositionalEncoding_init_ok [OF assms])
  have len: "length ?T = nat seq_len"
    by (simp add: length_position)
  have rows: "\<forall>pos<nat seq_len. length (?T ! pos) = nat d_model
          \<and> (\<forall>j<nat d_model. ?T ! pos ! j =
                (if even j
                 then sin (real pos * exp (real (2 * (j div 2)) * (- ln 10000 / real_of_int d_model)))
                 else cos (real pos * exp (real (2 * (j div 2)) * (- ln 10000 / real_of_int d_model)))))"
  proof (intro allI impI conjI)
    fix pos assume "pos < nat seq_len"
    then show "length (?T ! pos) = nat d_model"
      by (simp add: length_position length_set_strided)
  next
    fix pos j assume "pos < nat seq_len" and "j < nat d_model"
    then show "?T ! pos ! j =
                (if even j
                 then sin (real pos * exp (real (2 * (j div 2)) * (- ln 10000 / real_of_int d_model)))
                 else cos (real pos * exp (real (2 * (j div 2)) * (- ln 10000 / real_of_int d_model))))"
      by (rule pe_table_entry [OF assms(1)])
  qed
  have zero: "0 < seq_len \<longrightarrow> (\<forall>j<nat d_model. ?T ! 0 ! j = (if even j then 0 else 1))"
  proof (intro allI impI)
    fix j assume "0 < seq_len" and "j < nat d_model"
    then have "?T ! 0 ! j =
                (if even j
                 then sin (real 0 * exp (real (2 * (j div 2)) * (- ln 10000 / real_of_int d_model)))
                 else cos (real 0 * exp (real (2 * (j div 2)) * (- ln 10000 / real_of_int d_model))))"
      by (intro pe_table_entry [OF assms(1)]) simp_all
    then show "?T ! 0 ! j = (if even j then 0 else 1)"
      by simp
  qed
  have det: "\<forall>dropout'. 0 \<le> dropout' \<and> dropout' \<le> 1 \<longrightarrow>
           (\<exists>P'. PositionalEncoding_init d_model seq_len dropout' = Inr P' \<and> pe P' = [?T])"
    using PositionalEncoding_init_ok [OF assms(1-3)] by simp
  show ?thesis
    apply (rule exI [of _ ?P])
    apply (rule exI [of _ ?T])
    apply (intro conjI)
         apply (rule ok)
        apply simp
       apply (rule len)
      apply (rule rows)
     apply (rule zero)
    apply (rule det)
    done
qed

theorem positional_encoding_table_witness:
  "\<exists>P T. PositionalEncoding_init 4 2 (1 / 10) = Inr P \<and> pe P = [T] \<and> length T = 2
      \<and> length (T ! 0) = 4
      \<and> T ! 0 ! 0 = 0 \<and> T ! 0 ! 1 = 1 \<and> T ! 0 ! 2 = 0 \<and> T ! 0 ! 3 = 1
      \<and> T ! 1 ! 0 = sin 1 \<and> T ! 1 ! 1 = cos 1"
proof -
  have h: "(0::int) < 4" "even (4::int) \<or> (4::int) = 1" "(0::int) \<le> 2"
    "(0::real) \<le> 1 / 10" "(1::real) / 10 \<le> 1"
    by simp_all
  from positional_encoding_table [OF h]
  obtain P T where P: "PositionalEncoding_init 4 2 (1 / 10) = Inr P" "pe P = [T]" "length T = nat 2"
    and rows: "\<forall>pos<nat 2. length (T ! pos) = nat 4
          \<and> (\<forall>j<nat 4. T ! pos ! j =
                (if even j
                 then sin (real pos * exp (real (2 * (j div 2)) * (- ln 10000 / real_of_int 4)))
                 else cos (real pos * exp (real (2 * (j div 2)) * (- ln 10000 / real_of_int 4)))))"
    by (elim exE conjE)
  have r0: "length (T ! 0) = nat 4" and e0: "\<forall>j<nat 4. T ! 0 ! j =
                (if even j
                 then sin (real (0::nat) * exp (real (2 * (j div 2)) * (- ln 10000 / real_of_int 4)))
                 else cos (real (0::nat) * exp (real (2 * (j div 2)) * (- ln 10000 / real_of_int 4))))"
    using rows by (elim allE [of _ 0], simp)+
  have e1: "\<forall>j<nat 4. T ! 1 ! j =
                (if even j
                 then sin (real (1::nat) * exp (real (2 * (j div 2)) * (- ln 10000 / real_of_int 4)))
                 else cos (real (1::nat) * exp (real (2 * (j div 2)) * (- ln 10000 / real_of_int 4))))"
    using rows by (elim allE [of _ 1], simp)
  have "T ! 0 ! 0 = 0" "T ! 0 ! 1 = 1" "T ! 0 ! 2 = 0" "T ! 0 ! 3 = 1"
    using e0 by (elim allE [of _ 0], simp, elim allE [of _ 1], simp,
                 elim allE [of _ 2], simp, elim allE [of _ 3], simp)
  moreover have "T ! 1 ! 0 = sin 1" "T ! 1 ! 1 = cos 1"
    using e1 by (elim allE [of _ 0], simp, elim allE [of _ 1], simp)
  ultimately show ?thesis
    using P r0 by simp
qed

subsection \<open>Underflow of the exponential\<close>

lemma fexp_nonneg: "0 \<le> fexp u x"
  by (simp add: fexp_def)

lemma fexp_zero: "u \<le> 0 \<Longrightarrow> fexp u 0 = 1"
  by (simp add: fexp_def)

lemma fexp_le_exp: "fexp u x \<le> exp x"
  by (simp add: fexp_def)

lemma fexp_underflow: "x < u \<Longrightarrow> fexp u x = 0"
  by (simp add: fexp_def)

subsection \<open>The softmax helper of the attention exercise\<close>

lemma fold_max_ge: "(a::real) \<le> fold max xs a \<and> (\<forall>v\<in>set xs. v \<le> fold max xs a)"
proof (induction xs arbitrary: a)
  case Nil
  then show ?case by simp
next
  case (Cons x xs)
  have "max x a \<le> fold max xs (max x a)" "\<forall>v\<in>set xs. v \<le> fold max xs (max x a)"
    using Cons.IH [of "max x a"] by simp_all
  then show ?case by auto
qed

lemma fold_max_mem: "fold max xs (a::real) \<in> insert a (set xs)"
proof (induction xs arbitrary: a)
  case Nil
  then show ?case by simp
next
  case (Cons x xs)
  have "fold max xs (max x a) \<in> insert (max x a) (set xs)"
    by (rule Cons.IH)
  moreover have "max x a = x \<or> max x a = a"
    by (simp add: max_def)
  ultimately show ?case by auto
qed

lemma np_max_cases:
  "(concat x = [] \<longrightarrow> np_max x = Inl ValueError)
   \<and> (concat x \<noteq> [] \<longrightarrow>
        (\<exists>m. np_max x = Inr m \<and> m \<in> set (concat x) \<and> (\<forall>v\<in>set (concat x). v \<le> m)))"
proof (cases "concat x")
  case Nil
  then show ?thesis unfolding np_max_def by (simp only: list.case simp_thms)
next
  case (Cons v vs)
  have "fold max vs v \<in> set (concat x)" "\<forall>u\<in>set (concat x). u \<le> fold max vs v"
    using fold_max_mem [of vs v] fold_max_ge [of v vs] Cons by auto
  then show ?thesis
    unfolding np_max_def Cons by simp
qed


lemma softmax_unfold:
  "softmax u x = (case np_max x of Inl e \<Rightarrow> Inl e
     | Inr m \<Rightarrow> Inr (map (\<lambda>row. map (\<lambda>v. fdiv (fexp u (v - m)) (\<Sum>w\<leftarrow>row. fexp u (w - m))) row) x))"
  by (simp add: softmax_def Let_def zip_same_conv_map comp_def split: sum.splits)

lemma softmax_nonredundant_unfold:
  "softmax_nonredundant u x = (case np_max x of Inl e \<Rightarrow> Inl e
     | Inr m \<Rightarrow> Inr (map (\<lambda>row. map (\<lambda>v. fdiv (fexp u (v - m)) (\<Sum>w\<leftarrow>row. fexp u (w - m))) row) x))"
  by (simp add: softmax_nonredundant_def Let_def comp_def split: sum.splits)

lemma softmax_redundancy_neutral: "softmax u x = softmax_nonredundant u x"
  by (simp add: softmax_unfold softmax_nonredundant_unfold)

lemma sum_list_fexp_zero:
  "\<forall>v\<in>set row. v - m < u \<Longrightarrow> (\<Sum>w\<leftarrow>row. fexp u (w - m)) = 0"
  by (induction row) (simp_all add: fexp_def)

text \<open>
  A row that lies, entry by entry, more than the underflow distance below the maximum
  of the whole array comes back as a row of NaN.
\<close>

lemma softmax_nan_row:
  assumes "np_max x = Inr m" and "i < length x" and "\<forall>v\<in>set (x ! i). v - m < u"
  shows "\<exists>y. softmax u x = Inr y \<and> y ! i = replicate (length (x ! i)) None"
proof -
  have z: "(\<Sum>w\<leftarrow>x ! i. fexp u (w - m)) = 0"
    using assms(3) by (rule sum_list_fexp_zero)
  have "map (\<lambda>v. fdiv (fexp u (v - m)) (\<Sum>w\<leftarrow>x ! i. fexp u (w - m))) (x ! i)
          = replicate (length (x ! i)) None"
    unfolding z by (simp add: fdiv_def map_replicate_const)
  then show ?thesis
    using assms(1,2) by (simp add: softmax_unfold)
qed

lemma sum_list_divide_const: "(\<Sum>v\<leftarrow>xs. f v / (c::real)) = (\<Sum>v\<leftarrow>xs. f v) / c"
  by (induction xs) (simp_all add: add_divide_distrib)

lemma sum_list_fexp_ge_one:
  assumes "u \<le> 0" and "row \<noteq> []"
  shows "1 \<le> (\<Sum>w\<leftarrow>row. fexp u (w - Max (set row)))"
proof -
  have "Max (set row) \<in> set row"
    using assms(2) by (intro Max_in) simp_all
  then obtain k where k: "k < length row" "row ! k = Max (set row)"
    by (auto simp: in_set_conv_nth)
  have "fexp u (row ! k - Max (set row)) \<le> (\<Sum>w\<leftarrow>row. fexp u (w - Max (set row)))"
    using k(1) by (intro member_le_sum_list) (auto simp: fexp_nonneg)
  then show ?thesis
    using k(2) assms(1) by (simp add: fexp_zero)
qed

text \<open>
  The softmax that subtracts the maximum of the row never divides by zero: the
  maximal entry contributes \<open>exp 0 = 1\<close> to the sum. Its rows are numbers that
  sum to 1.
\<close>

lemma softmax_row_max_sums_to_one:
  assumes "u \<le> 0" and "row \<noteq> []"
  shows "\<exists>ws. softmax_row_max u row = map Some ws \<and> length ws = length row
            \<and> (\<forall>w\<in>set ws. 0 \<le> w) \<and> sum_list ws = 1"
proof -
  let ?S = "\<Sum>w\<leftarrow>row. fexp u (w - Max (set row))"
  let ?ws = "map (\<lambda>v. fexp u (v - Max (set row)) / ?S) row"
  have S: "1 \<le> ?S"
    using assms by (rule sum_list_fexp_ge_one)
  then have "softmax_row_max u row = map Some ?ws"
    by (simp add: softmax_row_max_def Let_def fdiv_def comp_def)
  moreover have "sum_list ?ws = 1"
    using S by (simp add: sum_list_divide_const comp_def)
  moreover have "\<forall>w\<in>set ?ws. 0 \<le> w"
    using S by (auto simp: fexp_nonneg)
  ultimately show ?thesis
    by (intro exI [of _ ?ws]) simp
qed

text \<open>
  Two rows 1000 apart, for every underflow threshold between \<open>-1000\<close> and 0: the row
  below is lost.
\<close>

lemma softmax_rows_far_apart:
  assumes "- 1000 < u" and "u \<le> 0"
  shows "softmax u [[0, 0], [1000, 1000]] = Inr [[None, None], [Some (1 / 2), Some (1 / 2)]]"
  using assms by (simp add: softmax_unfold np_max_def fexp_def fdiv_def)

text \<open>
  C9. The helper subtracts the maximum of the whole array (\<^verbatim>\<open>np.max(x)\<close> has no
  axis), not the maximum of each row. On the input \<open>[[0, 0], [1000, 1000]]\<close> the
  first row lies 1000 below that maximum: both of its exponentials underflow to zero,
  the row is divided by the sum zero, and the helper returns NaN in both of its
  entries, so the row does not sum to 1. The softmax that subtracts the maximum of each
  row returns \<open>1 / 2\<close> and \<open>1 / 2\<close> for the same row. The recomputation of the
  numerator is neutral: the non-redundant form returns the same array, NaN included.
\<close>

theorem softmax_global_max_underflow:
  "softmax (- 745) [[0, 0], [1000, 1000]] = Inr [[None, None], [Some (1 / 2), Some (1 / 2)]]
   \<and> map (softmax_row_max (- 745)) [[0, 0], [1000, 1000]]
       = [[Some (1 / 2), Some (1 / 2)], [Some (1 / 2), Some (1 / 2)]]
   \<and> softmax_nonredundant (- 745) [[0, 0], [1000, 1000]]
       = Inr [[None, None], [Some (1 / 2), Some (1 / 2)]]"
  by (simp add: softmax_unfold softmax_nonredundant_unfold np_max_def softmax_row_max_def
        fexp_def fdiv_def Let_def)

subsection \<open>Scaled dot-product attention\<close>

lemma tensor_softmax_numbers:
  assumes "\<forall>i<n. x i = Some (r i)" and "j < n"
  shows "tensor_softmax u n x j
           = fdiv (fexp u (r j - Max (r ` {..<n})))
                  (\<Sum>i<n. fexp u (r i - Max (r ` {..<n})))"
proof -
  have no: "\<not> (\<exists>i<n. x i = None)"
    using assms(1) by auto
  have img: "(\<lambda>i. the (x i)) ` {..<n} = r ` {..<n}"
    using assms(1) by (intro image_cong) simp_all
  have s: "(\<Sum>i<n. fexp u (the (x i) - Max (r ` {..<n})))
             = (\<Sum>i<n. fexp u (r i - Max (r ` {..<n})))"
    using assms(1) by (intro sum.cong) simp_all
  have t: "the (x j) = r j"
    using assms by simp
  have "tensor_softmax u n x j
          = fdiv (fexp u (the (x j) - Max ((\<lambda>i. the (x i)) ` {..<n})))
                 (\<Sum>i<n. fexp u (the (x i) - Max ((\<lambda>i. the (x i)) ` {..<n})))"
    unfolding tensor_softmax_def Let_def by (simp only: no if_False)
  then show ?thesis
    by (simp only: img s t)
qed

lemma softmax_denominator_ge_one:
  fixes n :: nat
  assumes "u \<le> 0" and "0 < n"
  shows "1 \<le> (\<Sum>i<n. fexp u (r i - Max (r ` {..<n})))"
proof -
  have "finite (r ` {..<n})" "r ` {..<n} \<noteq> {}"
    using assms(2) by auto
  then have "Max (r ` {..<n}) \<in> r ` {..<n}"
    by (rule Max_in)
  then obtain k where k: "k < n" "r k = Max (r ` {..<n})"
    by auto
  have "fexp u (r k - Max (r ` {..<n})) \<le> (\<Sum>i<n. fexp u (r i - Max (r ` {..<n})))"
    using k(1) by (intro member_le_sum) (auto simp: fexp_nonneg)
  then show ?thesis
    using k(2) assms(1) by (simp add: fexp_zero)
qed

lemma tensor_softmax_weights:
  fixes n :: nat
  assumes u: "u \<le> 0" and x: "\<forall>i<n. x i = Some (r i)"
  shows "\<exists>ws. (\<forall>j<n. tensor_softmax u n x j = Some (ws j) \<and> 0 \<le> ws j)
            \<and> (0 < n \<longrightarrow> (\<Sum>j<n. ws j) = 1)
            \<and> (\<forall>j<n. \<forall>j'<n. ws j \<le> exp (r j - r j') \<and> (r j - r j' < u \<longrightarrow> ws j = 0))"
proof -
  let ?M = "Max (r ` {..<n})"
  let ?S = "\<Sum>i<n. fexp u (r i - ?M)"
  let ?ws = "\<lambda>j. fexp u (r j - ?M) / ?S"
  have S: "1 \<le> ?S" if "0 < n"
    using u that by (rule softmax_denominator_ge_one)
  have a: "tensor_softmax u n x j = Some (?ws j) \<and> 0 \<le> ?ws j" if "j < n" for j
  proof -
    have "0 < n" using that by simp
    then have "?S \<noteq> 0" "0 \<le> ?S" using S by auto
    then show ?thesis
      using tensor_softmax_numbers [OF x that, of u] by (simp add: fdiv_def fexp_nonneg)
  qed
  have b: "(\<Sum>j<n. ?ws j) = 1" if "0 < n"
  proof -
    have "(\<Sum>j<n. ?ws j) = ?S / ?S"
      by (simp add: sum_divide_distrib [symmetric])
    then show ?thesis using S [OF that] by simp
  qed
  have c: "?ws j \<le> exp (r j - r j') \<and> (r j - r j' < u \<longrightarrow> ?ws j = 0)"
    if "j < n" "j' < n" for j j'
  proof -
    have n: "0 < n" using that by simp
    have ge: "r j' \<le> ?M"
      using that(2) by (intro Max_ge) auto
    have "?ws j \<le> fexp u (r j - ?M) / 1"
      using S [OF n] fexp_nonneg [of u "r j - ?M"]
      by (intro divide_left_mono) simp_all
    then have "?ws j \<le> fexp u (r j - ?M)"
      by simp
    also have "\<dots> \<le> exp (r j - ?M)"
      by (rule fexp_le_exp)
    also have "\<dots> \<le> exp (r j - r j')"
      using ge by simp
    finally have le: "?ws j \<le> exp (r j - r j')" .
    have "?ws j = 0" if "r j - r j' < u"
    proof -
      have "r j - ?M < u" using that ge by simp
      then show ?thesis by (simp add: fexp_underflow)
    qed
    then show ?thesis using le by simp
  qed
  show ?thesis
    using a b c by (intro exI [of _ ?ws]) blast
qed


lemma attention_misfit:
  assumes "\<not> (t_cols key = t_cols query
              \<and> (t_rows msk = t_rows query \<or> t_rows msk = 1)
              \<and> (t_cols msk = t_rows key \<or> t_cols msk = 1)
              \<and> t_rows v = t_rows key)"
  shows "attention u query key v (Some msk) dropout = Inl RuntimeError"
proof (cases dropout)
  case None
  then show ?thesis
    using assms
    by (auto simp: attention_def Let_def matmul_transposed_def divide_scalar_def masked_fill_def
          softmax_last_dim_def matmul_def)
next
  case (Some a)
  then obtain d keep where "dropout = Some (d, keep)"
    by (cases a) simp
  then show ?thesis
    using assms
    by (auto simp: attention_def Let_def matmul_transposed_def divide_scalar_def masked_fill_def
          softmax_last_dim_def matmul_def dropout_forward_def)
qed

lemma attention_fit:
  assumes "t_cols key = t_cols query"
    and "(t_rows msk = t_rows query \<or> t_rows msk = 1) \<and> (t_cols msk = t_rows key \<or> t_cols msk = 1)"
    and "t_rows v = t_rows key"
  shows "\<exists>out w. attention u query key v (Some msk) dropout = Inr (out, w)
      \<and> t_rows w = t_rows query \<and> t_cols w = t_rows key
      \<and> t_rows out = t_rows query \<and> t_cols out = t_cols v
      \<and> (dropout = None \<longrightarrow>
           (\<forall>i j. t_at w i j =
              tensor_softmax u (t_rows key)
                (\<lambda>j. if mask_at msk i j = 0 then Some (- 1000000000)
                      else fdiv (\<Sum>c<t_cols query. t_at query i c * t_at key j c)
                                (sqrt (real (t_cols query)))) j))
      \<and> (\<forall>d keep. dropout = Some (d, keep) \<longrightarrow>
           (\<forall>i j. t_at w i j =
              (if training d
               then map_option (\<lambda>x. if dropout_p d = 1 then 0
                                     else if keep i j then x / (1 - dropout_p d) else 0)
                      (tensor_softmax u (t_rows key)
                        (\<lambda>j. if mask_at msk i j = 0 then Some (- 1000000000)
                              else fdiv (\<Sum>c<t_cols query. t_at query i c * t_at key j c)
                                        (sqrt (real (t_cols query)))) j)
               else tensor_softmax u (t_rows key)
                      (\<lambda>j. if mask_at msk i j = 0 then Some (- 1000000000)
                            else fdiv (\<Sum>c<t_cols query. t_at query i c * t_at key j c)
                                      (sqrt (real (t_cols query)))) j)))"
proof (cases dropout)
  case None
  then show ?thesis
    using assms
    by (simp add: attention_def Let_def matmul_transposed_def divide_scalar_def masked_fill_def
          softmax_last_dim_def matmul_def cong: if_cong)
next
  case (Some a)
  then obtain d keep where "dropout = Some (d, keep)"
    by (cases a) simp
  then show ?thesis
    using assms
    by (simp add: attention_def Let_def matmul_transposed_def divide_scalar_def masked_fill_def
          softmax_last_dim_def matmul_def dropout_forward_def cong: if_cong)
qed

lemma filled_row_numbers:
  assumes "0 < t_cols query"
  shows "\<forall>j<n. (if mask_at msk i j = 0 then Some (- 1000000000)
                else fdiv (\<Sum>c<t_cols query. t_at query i c * t_at key j c)
                          (sqrt (real (t_cols query))))
          = Some (if mask_at msk i j = 0 then - 1000000000
                  else (\<Sum>c<t_cols query. t_at query i c * t_at key j c)
                         / sqrt (real (t_cols query)))"
  using assms by (simp add: fdiv_def)


text \<open>
  C1 (amended). For every query, key, value and mask: when the shapes do not fit (the
  key width differs from the query width, the mask cannot be broadcast to the scores,
  or the value has not one row for each key), \<open>attention\<close> raises
  \<^verbatim>\<open>RuntimeError\<close>. When they fit it returns an output and a weight matrix with one
  row for each query and one column for each key, and in every dropout mode the weights
  are those of the softmax taken on the scores in which every position whose mask entry
  is 0 has been overwritten with \<open>-1e9\<close>: the softmax itself when there is no dropout
  layer or the layer is in evaluation mode, and its dropped and rescaled entries when
  the layer is in training mode. With \<open>d_k > 0\<close> every row of that softmax consists
  of numbers that are not negative and, with at least one key, sum to 1; the weight of
  a hidden key is at most \<open>exp (-1e9 - s)\<close> for every score \<open>s\<close> of a visible key of
  the same row, and it is exactly 0 as soon as \<open>-1e9 - s\<close> is below the underflow
  threshold of the exponential.
\<close>

theorem attention_masks_before_softmax:
  fixes query key v :: "real tensor" and msk :: "int tensor" and u :: real
  defines "fit \<equiv> t_cols key = t_cols query
                  \<and> (t_rows msk = t_rows query \<or> t_rows msk = 1)
                  \<and> (t_cols msk = t_rows key \<or> t_cols msk = 1)
                  \<and> t_rows v = t_rows key"
    and "score \<equiv> \<lambda>i j. (\<Sum>c<t_cols query. t_at query i c * t_at key j c)
                          / sqrt (real (t_cols query))"
    and "filled \<equiv> \<lambda>i j. if mask_at msk i j = 0 then Some (- 1000000000)
                         else fdiv (\<Sum>c<t_cols query. t_at query i c * t_at key j c)
                                   (sqrt (real (t_cols query)))"
    and "W \<equiv> \<lambda>i j. tensor_softmax u (t_rows key)
                    (\<lambda>j. if mask_at msk i j = 0 then Some (- 1000000000)
                          else fdiv (\<Sum>c<t_cols query. t_at query i c * t_at key j c)
                                    (sqrt (real (t_cols query)))) j"
  shows "(\<not> fit \<longrightarrow> attention u query key v (Some msk) dropout = Inl RuntimeError)
    \<and> (fit \<longrightarrow>
         (\<exists>out w. attention u query key v (Some msk) dropout = Inr (out, w)
            \<and> t_rows w = t_rows query \<and> t_cols w = t_rows key
            \<and> t_rows out = t_rows query \<and> t_cols out = t_cols v
            \<and> (dropout = None \<longrightarrow> (\<forall>i j. t_at w i j = W i j))
            \<and> (\<forall>d keep. dropout = Some (d, keep) \<longrightarrow>
                  (\<forall>i j. t_at w i j =
                     (if training d
                      then map_option (\<lambda>x. if dropout_p d = 1 then 0
                                            else if keep i j then x / (1 - dropout_p d) else 0)
                             (W i j)
                      else W i j)))))
    \<and> (u \<le> 0 \<and> 0 < t_cols query \<longrightarrow>
         (\<forall>i<t_rows query. \<exists>ws.
              (\<forall>j<t_rows key. W i j = Some (ws j) \<and> 0 \<le> ws j)
            \<and> (0 < t_rows key \<longrightarrow> (\<Sum>j<t_rows key. ws j) = 1)
            \<and> (\<forall>j<t_rows key. \<forall>j'<t_rows key.
                  mask_at msk i j = 0 \<and> mask_at msk i j' \<noteq> 0 \<longrightarrow>
                    ws j \<le> exp (- 1000000000 - score i j')
                  \<and> (- 1000000000 - score i j' < u \<longrightarrow> ws j = 0))))"
proof (intro conjI impI)
  assume "\<not> fit"
  then show "attention u query key v (Some msk) dropout = Inl RuntimeError"
    unfolding fit_def by (rule attention_misfit)
next
  assume fit
  then have f: "t_cols key = t_cols query"
    "(t_rows msk = t_rows query \<or> t_rows msk = 1) \<and> (t_cols msk = t_rows key \<or> t_cols msk = 1)"
    "t_rows v = t_rows key"
    unfolding fit_def by simp_all
  show "\<exists>out w. attention u query key v (Some msk) dropout = Inr (out, w)
            \<and> t_rows w = t_rows query \<and> t_cols w = t_rows key
            \<and> t_rows out = t_rows query \<and> t_cols out = t_cols v
            \<and> (dropout = None \<longrightarrow> (\<forall>i j. t_at w i j = W i j))
            \<and> (\<forall>d keep. dropout = Some (d, keep) \<longrightarrow>
                  (\<forall>i j. t_at w i j =
                     (if training d
                      then map_option (\<lambda>x. if dropout_p d = 1 then 0
                                            else if keep i j then x / (1 - dropout_p d) else 0)
                             (W i j)
                      else W i j)))"
    unfolding W_def by (rule attention_fit [OF f])
next
  assume h: "u \<le> 0 \<and> 0 < t_cols query"
  show "\<forall>i<t_rows query. \<exists>ws.
              (\<forall>j<t_rows key. W i j = Some (ws j) \<and> 0 \<le> ws j)
            \<and> (0 < t_rows key \<longrightarrow> (\<Sum>j<t_rows key. ws j) = 1)
            \<and> (\<forall>j<t_rows key. \<forall>j'<t_rows key.
                  mask_at msk i j = 0 \<and> mask_at msk i j' \<noteq> 0 \<longrightarrow>
                    ws j \<le> exp (- 1000000000 - score i j')
                  \<and> (- 1000000000 - score i j' < u \<longrightarrow> ws j = 0))"
  proof (intro allI impI)
    fix i assume "i < t_rows query"
    let ?r = "\<lambda>j. if mask_at msk i j = 0 then - 1000000000 else score i j"
    have num: "\<forall>j<t_rows key. filled i j = Some (?r j)"
      unfolding filled_def score_def using h by (simp add: fdiv_def)
    from tensor_softmax_weights [OF conjunct1 [OF h] num]
    obtain ws where a: "\<forall>j<t_rows key. tensor_softmax u (t_rows key) (filled i) j = Some (ws j)
                            \<and> 0 \<le> ws j"
      and b: "0 < t_rows key \<longrightarrow> (\<Sum>j<t_rows key. ws j) = 1"
      and c: "\<forall>j<t_rows key. \<forall>j'<t_rows key.
                 ws j \<le> exp (?r j - ?r j') \<and> (?r j - ?r j' < u \<longrightarrow> ws j = 0)"
      by (elim exE conjE)
    have c': "\<forall>j<t_rows key. \<forall>j'<t_rows key.
                  mask_at msk i j = 0 \<and> mask_at msk i j' \<noteq> 0 \<longrightarrow>
                    ws j \<le> exp (- 1000000000 - score i j')
                  \<and> (- 1000000000 - score i j' < u \<longrightarrow> ws j = 0)"
    proof (intro allI impI)
      fix j j'
      assume j: "j < t_rows key" and j': "j' < t_rows key"
        and m: "mask_at msk i j = 0 \<and> mask_at msk i j' \<noteq> 0"
      show "ws j \<le> exp (- 1000000000 - score i j')
                  \<and> (- 1000000000 - score i j' < u \<longrightarrow> ws j = 0)"
        using c [THEN spec, of j, THEN mp, OF j, THEN spec, of j', THEN mp, OF j'] m
        by simp
    qed
    show "\<exists>ws. (\<forall>j<t_rows key. W i j = Some (ws j) \<and> 0 \<le> ws j)
            \<and> (0 < t_rows key \<longrightarrow> (\<Sum>j<t_rows key. ws j) = 1)
            \<and> (\<forall>j<t_rows key. \<forall>j'<t_rows key.
                  mask_at msk i j = 0 \<and> mask_at msk i j' \<noteq> 0 \<longrightarrow>
                    ws j \<le> exp (- 1000000000 - score i j')
                  \<and> (- 1000000000 - score i j' < u \<longrightarrow> ws j = 0))"
      unfolding W_def
      apply (rule exI [of _ ws])
      apply (intro conjI)
        apply (rule a [unfolded filled_def])
       apply (rule b)
      apply (rule c')
      done
  qed
qed


theorem attention_masks_before_softmax_witness:
  "map_sum id snd (result_rows
      (attention (- 104) (of_rows [[1]]) (of_rows [[1], [1]]) (of_rows [[1], [1]])
         (Some (of_rows [[1, 0]])) None))
     = Inr [[Some 1, Some 0]]"
proof -
  let ?q = "of_rows [[1::real]]" and ?k = "of_rows [[1::real], [1]]"
    and ?m = "of_rows [[1::int, 0]]"
  let ?W = "\<lambda>i j. tensor_softmax (- 104) (t_rows ?k)
                    (\<lambda>j. if mask_at ?m i j = 0 then Some (- 1000000000)
                          else fdiv (\<Sum>c<t_cols ?q. t_at ?q i c * t_at ?k j c)
                                    (sqrt (real (t_cols ?q)))) j"
  let ?score = "\<lambda>i j. (\<Sum>c<t_cols ?q. t_at ?q i c * t_at ?k j c) / sqrt (real (t_cols ?q))"
  note t = attention_masks_before_softmax [where u = "- 104" and query = ?q and key = ?k
      and v = ?k and msk = ?m and dropout = None]
  have fit: "t_cols ?k = t_cols ?q
                  \<and> (t_rows ?m = t_rows ?q \<or> t_rows ?m = 1)
                  \<and> (t_cols ?m = t_rows ?k \<or> t_cols ?m = 1)
                  \<and> t_rows ?k = t_rows ?k"
    by (simp add: of_rows_def)
  from t [THEN conjunct2, THEN conjunct1, THEN mp, OF fit]
  obtain out w where run: "attention (- 104) ?q ?k ?k (Some ?m) None = Inr (out, w)"
    and shape: "t_rows w = t_rows ?q" "t_cols w = t_rows ?k"
    and n: "None = (None :: (Dropout \<times> (nat \<Rightarrow> nat \<Rightarrow> bool)) option)
              \<longrightarrow> (\<forall>i j. t_at w i j = ?W i j)"
    by (elim exE conjE)
  have w: "t_at w i j = ?W i j" for i j
    using n by simp
  have pre: "(- 104 :: real) \<le> 0 \<and> 0 < t_cols ?q"
    by (simp add: of_rows_def)
  have i0: "0 < t_rows ?q" and j0: "0 < t_rows ?k" and j1: "1 < t_rows ?k"
    by (simp_all add: of_rows_def)
  from t [THEN conjunct2, THEN conjunct2, THEN mp, OF pre, THEN spec, of 0, THEN mp, OF i0]
  obtain ws where a: "\<forall>j<t_rows ?k. ?W 0 j = Some (ws j) \<and> 0 \<le> ws j"
    and b: "0 < t_rows ?k \<longrightarrow> (\<Sum>j<t_rows ?k. ws j) = 1"
    and c: "\<forall>j<t_rows ?k. \<forall>j'<t_rows ?k.
                  mask_at ?m 0 j = 0 \<and> mask_at ?m 0 j' \<noteq> 0 \<longrightarrow>
                    ws j \<le> exp (- 1000000000 - ?score 0 j')
                  \<and> (- 1000000000 - ?score 0 j' < - 104 \<longrightarrow> ws j = 0)"
    by (elim exE conjE)
  have m: "mask_at ?m 0 1 = 0 \<and> mask_at ?m 0 0 \<noteq> 0"
    by (simp add: mask_at_def of_rows_def)
  have sc: "?score 0 0 = 1"
    by (simp add: of_rows_def)
  have ws1: "ws 1 = 0"
    using c [THEN spec, of 1, THEN mp, OF j1, THEN spec, of 0, THEN mp, OF j0, THEN mp, OF m]
    unfolding sc by simp
  have "t_rows ?k = Suc (Suc 0)"
    by (simp add: of_rows_def)
  with b have "ws 0 + ws 1 = 1"
    by simp
  with ws1 have ws0: "ws 0 = 1"
    by simp
  have w0: "t_at w 0 0 = Some 1"
    using a [THEN spec, of 0, THEN mp, OF j0] ws0 unfolding w by simp
  have w1: "t_at w 0 1 = Some 0"
    using a [THEN spec, of 1, THEN mp, OF j1] ws1 unfolding w by simp
  have sh: "t_rows w = 1" "t_cols w = 2"
    using shape by (simp_all add: of_rows_def)
  have "to_rows w = [[Some 1, Some 0]]"
    using sh w0 w1 by (simp add: to_rows_def numeral_2_eq_2)
  then show ?thesis
    unfolding run by (simp add: result_rows_def)
qed

theorem attention_dropout_hidden_counterexample:
  "result_rows
      (attention (- 104) (of_rows [[1]]) (of_rows [[1]]) (of_rows [[1]])
         (Some (of_rows [[0]]))
         (Some (\<lparr>dropout_p = 1 / 2, training = True\<rparr>, keep_all)))
     = Inr ([[Some 2]], [[Some 2]])"
  by (simp add: attention_def Let_def matmul_transposed_def divide_scalar_def masked_fill_def
        softmax_last_dim_def matmul_def dropout_forward_def of_rows_def mask_at_def
        tensor_softmax_def fexp_def fdiv_def lessThan_Suc result_rows_def to_rows_def
        keep_all_def cong: if_cong)

lemma tensor_softmax_constant:
  fixes n :: nat
  assumes "u \<le> 0" and "\<forall>i<n. x i = Some c" and "j < n"
  shows "tensor_softmax u n x j = Some (1 / real n)"
    and "(\<Sum>i<n. fexp u (the (x i) - Max ((\<lambda>i. the (x i)) ` {..<n}))) = real n"
proof -
  have n: "0 < n" using assms(3) by simp
  then have img: "(\<lambda>i. c) ` {..<n} = {c}"
    by auto
  have img': "(\<lambda>i. the (x i)) ` {..<n} = {c}"
    using assms(2) n by (auto simp: image_iff)
  have "\<And>i. i < n \<Longrightarrow> fexp u (the (x i) - c) = 1"
    using assms(1,2) by (simp add: fexp_zero)
  then show "(\<Sum>i<n. fexp u (the (x i) - Max ((\<lambda>i. the (x i)) ` {..<n}))) = real n"
    unfolding img' by simp
  show "tensor_softmax u n x j = Some (1 / real n)"
    using tensor_softmax_numbers [OF assms(2,3), of u] n assms(1)
    by (simp add: img fexp_zero fdiv_def)
qed

text \<open>
  C4 (amended). For shapes that fit and a query row whose mask entries are all 0,
  \<open>attention\<close> returns (it does not raise) and the softmax is taken on the filled
  scores of the row, which are all \<open>-1e9\<close>. After the subtraction of the row
  maximum each exponential is \<open>exp 0 = 1\<close>, so with \<open>n \<ge> 1\<close> keys the denominator
  is \<open>n\<close> and the weights of the softmax are uniform, each \<open>1 / n\<close>: they are not
  near zero. No returned weight of the row is NaN, in any dropout mode: without an
  active dropout layer the returned weights are \<open>1 / n\<close> each and sum to 1; in
  training mode each is 0 or \<open>1 / n / (1 - p)\<close>.
\<close>

theorem attention_all_hidden_row:
  fixes query key v :: "real tensor" and msk :: "int tensor" and u :: real
  defines "filled \<equiv> \<lambda>i j. if mask_at msk i j = 0 then Some (- 1000000000)
                         else fdiv (\<Sum>c<t_cols query. t_at query i c * t_at key j c)
                                   (sqrt (real (t_cols query)))"
  assumes "t_cols key = t_cols query"
    and "(t_rows msk = t_rows query \<or> t_rows msk = 1) \<and> (t_cols msk = t_rows key \<or> t_cols msk = 1)"
    and "t_rows v = t_rows key"
    and "u \<le> 0" and "i < t_rows query"
    and "\<forall>j<t_rows key. mask_at msk i j = 0"
  shows "\<exists>out w. attention u query key v (Some msk) dropout = Inr (out, w)
      \<and> t_rows w = t_rows query \<and> t_cols w = t_rows key
      \<and> (\<forall>j<t_rows key. filled i j = Some (- 1000000000))
      \<and> (0 < t_rows key \<longrightarrow>
            (\<Sum>j<t_rows key. fexp u (the (filled i j)
                    - Max ((\<lambda>j. the (filled i j)) ` {..<t_rows key}))) = real (t_rows key))
      \<and> (\<forall>j<t_rows key. tensor_softmax u (t_rows key) (filled i) j
                            = Some (1 / real (t_rows key)))
      \<and> (\<forall>j<t_rows key. t_at w i j \<noteq> None)
      \<and> ((\<forall>d keep. dropout = Some (d, keep) \<longrightarrow> \<not> training d) \<longrightarrow>
            (\<forall>j<t_rows key. t_at w i j = Some (1 / real (t_rows key)))
          \<and> (0 < t_rows key \<longrightarrow> (\<Sum>j<t_rows key. the (t_at w i j)) = 1))
      \<and> (\<forall>d keep. dropout = Some (d, keep) \<and> training d \<longrightarrow>
            (\<forall>j<t_rows key. t_at w i j =
               Some (if dropout_p d = 1 then 0
                     else if keep i j then 1 / real (t_rows key) / (1 - dropout_p d) else 0)))"
proof -
  let ?n = "t_rows key"
  have hid: "\<forall>j<?n. filled i j = Some (- 1000000000)"
    unfolding filled_def using assms(7) by simp
  have den: "0 < ?n \<longrightarrow>
            (\<Sum>j<?n. fexp u (the (filled i j) - Max ((\<lambda>j. the (filled i j)) ` {..<?n}))) = real ?n"
    using tensor_softmax_constant(2) [OF assms(5) hid] by blast
  have W: "\<forall>j<?n. tensor_softmax u ?n (filled i) j = Some (1 / real ?n)"
    using tensor_softmax_constant(1) [OF assms(5) hid] by blast
  from attention_fit [OF assms(2,3,4), of u dropout]
  obtain out w where run: "attention u query key v (Some msk) dropout = Inr (out, w)"
    and shape: "t_rows w = t_rows query" "t_cols w = t_rows key"
    and n: "dropout = None \<longrightarrow> (\<forall>i j. t_at w i j = tensor_softmax u ?n (filled i) j)"
    and s: "\<forall>d keep. dropout = Some (d, keep) \<longrightarrow>
           (\<forall>i j. t_at w i j =
              (if training d
               then map_option (\<lambda>x. if dropout_p d = 1 then 0
                                     else if keep i j then x / (1 - dropout_p d) else 0)
                      (tensor_softmax u ?n (filled i) j)
               else tensor_softmax u ?n (filled i) j))"
    unfolding filled_def by (elim exE conjE)
  have finite: "t_at w i j \<noteq> None" if "j < ?n" for j
  proof (cases dropout)
    case None
    then show ?thesis using n W that by simp
  next
    case (Some a)
    then obtain d keep where "dropout = Some (d, keep)"
      by (cases a) simp
    then show ?thesis using s W that by simp
  qed
  have eval: "t_at w i j = Some (1 / real ?n)"
    if "\<forall>d keep. dropout = Some (d, keep) \<longrightarrow> \<not> training d" "j < ?n" for j
  proof (cases dropout)
    case None
    then show ?thesis using n W that by simp
  next
    case (Some a)
    then obtain d keep where "dropout = Some (d, keep)"
      by (cases a) simp
    then show ?thesis using s W that by simp
  qed
  have sum: "(\<Sum>j<?n. the (t_at w i j)) = 1"
    if "\<forall>d keep. dropout = Some (d, keep) \<longrightarrow> \<not> training d" "0 < ?n"
  proof -
    have "(\<Sum>j<?n. the (t_at w i j)) = (\<Sum>j<?n. 1 / real ?n)"
      using eval [OF that(1)] by (intro sum.cong) simp_all
    then show ?thesis using that(2) by simp
  qed
  have train: "t_at w i j = Some (if dropout_p d = 1 then 0
                     else if keep i j then 1 / real ?n / (1 - dropout_p d) else 0)"
    if "dropout = Some (d, keep) \<and> training d" "j < ?n" for d keep j
    using s W that by simp
  show ?thesis
    apply (rule exI [of _ out])
    apply (rule exI [of _ w])
    apply (intro conjI)
           apply (rule run)
          apply (rule shape)
         apply (rule shape)
        apply (rule hid)
       apply (rule den)
      apply (rule W)
      apply (use finite in blast)
     apply (use eval sum in blast)
    apply (use train in blast)
    done
qed


theorem attention_all_hidden_row_witness:
  "map_sum id snd (result_rows
      (attention (- 104) (of_rows [[1]]) (of_rows [[1], [1]]) (of_rows [[1], [1]])
         (Some (of_rows [[0, 0]])) None))
     = Inr [[Some (1 / 2), Some (1 / 2)]]"
proof -
  let ?q = "of_rows [[1::real]]" and ?k = "of_rows [[1::real], [1]]"
    and ?m = "of_rows [[0::int, 0]]"
  have h: "t_cols ?k = t_cols ?q"
    "(t_rows ?m = t_rows ?q \<or> t_rows ?m = 1) \<and> (t_cols ?m = t_rows ?k \<or> t_cols ?m = 1)"
    "t_rows ?k = t_rows ?k" "(- 104 :: real) \<le> 0" "0 < t_rows ?q"
    "\<forall>j<t_rows ?k. mask_at ?m 0 j = 0"
    by (simp_all add: of_rows_def mask_at_def less_Suc_eq)
  have k2: "t_rows ?k = 2"
    by (simp add: of_rows_def)
  have inactive: "\<forall>d keep. (None :: (Dropout \<times> (nat \<Rightarrow> nat \<Rightarrow> bool)) option) = Some (d, keep)
                    \<longrightarrow> \<not> training d"
    by simp
  from attention_all_hidden_row [OF h, of None]
  obtain out w where run: "attention (- 104) ?q ?k ?k (Some ?m) None = Inr (out, w)"
    and shape: "t_rows w = t_rows ?q" "t_cols w = t_rows ?k"
    and e: "(\<forall>d keep. (None :: (Dropout \<times> (nat \<Rightarrow> nat \<Rightarrow> bool)) option) = Some (d, keep)
                \<longrightarrow> \<not> training d) \<longrightarrow>
            (\<forall>j<t_rows ?k. t_at w 0 j = Some (1 / real (t_rows ?k)))
          \<and> (0 < t_rows ?k \<longrightarrow> (\<Sum>j<t_rows ?k. the (t_at w 0 j)) = 1)"
    by (elim exE conjE)
  from e [THEN mp, OF inactive]
  have u: "\<forall>j<2. t_at w 0 j = Some (1 / 2)" and s: "(\<Sum>j<2. the (t_at w 0 j)) = 1"
    unfolding k2 by simp_all
  have w0: "t_at w 0 0 = Some (1 / 2)" and w1: "t_at w 0 1 = Some (1 / 2)"
    using u by simp_all
  have sh: "t_rows w = 1" "t_cols w = 2"
    using shape by (simp_all add: of_rows_def)
  have "to_rows w = [[Some (1 / 2), Some (1 / 2)]]"
    using sh w0 w1 by (simp add: to_rows_def numeral_2_eq_2)
  then show ?thesis
    unfolding run by (simp add: result_rows_def)
qed

theorem attention_single_hidden_key_counterexample:
  "result_rows
      (attention (- 104) (of_rows [[1]]) (of_rows [[1]]) (of_rows [[1]])
         (Some (of_rows [[0]])) None)
     = Inr ([[Some 1]], [[Some 1]])
   \<and> attention (- 104) (of_rows [[1]]) (of_rows [[1]]) (of_rows [[1], [1]])
         (Some (of_rows [[0]])) None = Inl RuntimeError"
  by (simp add: attention_def Let_def matmul_transposed_def divide_scalar_def masked_fill_def
        softmax_last_dim_def matmul_def of_rows_def mask_at_def
        tensor_softmax_def fexp_def fdiv_def lessThan_Suc result_rows_def to_rows_def
        cong: if_cong)

end
